theory Spec2Isabelle
  imports Main
begin

section \<open>Data model (src/pubsub/types.ts)\<close>

text \<open>
  JavaScript numbers are modelled as \<open>int\<close> (the broker only ever stores integers:
  millisecond timestamps, sizes and counters); counters that start at 0 and are only
  incremented are \<open>nat\<close>. Every read of \<open>Date.now()\<close> inside one operation is the
  explicit argument \<open>now\<close> of that operation. An optional property is an \<open>option\<close>.
  A JavaScript \<open>Map\<close> is a partial function; a \<open>Set\<close> whose iteration order matters is
  a duplicate-free list in insertion order.
\<close>

datatype jsval = JUndefined | JNull | JBool bool | JNum int | JStr string | JRef nat

text \<open>A payload is opaque to the broker except for the filter, which reads the own
  properties of an object payload. \<open>JRef\<close> is an object compared by reference.\<close>

datatype js_payload = PObject "(string \<times> jsval) list" | PValue jsval

record Message =
  msg_id :: string
  topic :: string
  payload :: js_payload
  timestamp :: int
  publisherId :: string
  headers :: "(string \<times> string) list option"
  replyTo :: "string option"
  correlationId :: "string option"
  ttl :: "int option"
  retryCount :: "int option"

record QueuedMessage = Message +
  subscriberId :: string
  queuedAt :: int
  attempts :: nat
  maxRetries :: int
  nextRetryAt :: "int option"

record DeadLetterMessage = QueuedMessage +
  failureReason :: string
  failedAt :: int
  originalTopic :: string

record TopicConfig =
  cfg_maxQueueSize :: int
  cfg_messageRetention :: int
  cfg_maxRetries :: int
  cfg_retryDelay :: int
  cfg_requireAck :: bool

text \<open>\<open>Partial<TopicConfig>\<close>: every property may be absent.\<close>

record TopicConfigPartial =
  p_maxQueueSize :: "int option"
  p_messageRetention :: "int option"
  p_maxRetries :: "int option"
  p_retryDelay :: "int option"
  p_requireAck :: "bool option"

record Topic =
  name :: string
  createdAt :: int
  createdBy :: string
  messageCount :: nat
  subscriberCount :: nat
  config :: TopicConfig

datatype header_pattern = HLiteral string | HRegExp "string \<Rightarrow> bool"

record MessageFilter =
  f_headers :: "(string \<times> header_pattern) list option"
  f_payload :: "(string \<times> jsval) list option"

record Subscriber =
  sub_id :: string
  clientId :: string
  sub_topics :: "string list"
  sub_createdAt :: int
  lastActivity :: int
  isOnline :: bool
  pendingMessages :: nat
  deliveredMessages :: nat
  sub_filter :: "MessageFilter option"

record Publisher =
  pub_id :: string
  pub_clientId :: string
  pub_createdAt :: int
  pub_lastActivity :: int
  publishedMessages :: nat
  pub_topics :: "string list"

text \<open>Every \<open>throw new Error(...)\<close> of the modelled code is one of these values.\<close>

datatype error =
  AlreadyExists string
  | InvalidName
  | NotFound string

subsection \<open>Array and Set helpers\<close>

text \<open>\<open>Array.prototype.findIndex\<close>: the first index whose element satisfies the
  predicate, \<open>None\<close> for the source's \<open>-1\<close>.\<close>

fun findIndex :: "('a \<Rightarrow> bool) \<Rightarrow> 'a list \<Rightarrow> nat option" where
  "findIndex P [] = None"
| "findIndex P (x # xs) = (if P x then Some 0 else map_option Suc (findIndex P xs))"

text \<open>\<open>xs.splice(i, 1)\<close>: the array without the element at index \<open>i\<close>.\<close>

definition splice1 :: "nat \<Rightarrow> 'a list \<Rightarrow> 'a list" where
  "splice1 i xs = take i xs @ drop (Suc i) xs"

text \<open>\<open>Set.prototype.add\<close> and \<open>new Set(iterable)\<close>, in insertion order.\<close>

definition set_add :: "'a list \<Rightarrow> 'a \<Rightarrow> 'a list" where
  "set_add s x = (if List.member s x then s else s @ [x])"

definition new_Set :: "'a list \<Rightarrow> 'a list" where
  "new_Set xs = foldl set_add [] xs"

section \<open>MessageQueue (src/pubsub/queue.ts)\<close>

record MessageQueue =
  queues :: "string \<rightharpoonup> QueuedMessage list"
  deadLetterQueue :: "DeadLetterMessage list"
  maxQueueSize :: int
  maxDeadLetterSize :: int

definition new_MessageQueue :: "int \<Rightarrow> int \<Rightarrow> MessageQueue" where
  "new_MessageQueue mqs mdls =
     \<lparr>queues = Map.empty, deadLetterQueue = [], maxQueueSize = mqs, maxDeadLetterSize = mdls\<rparr>"

definition moveToDeadLetter :: "int \<Rightarrow> QueuedMessage \<Rightarrow> string \<Rightarrow> MessageQueue \<Rightarrow> MessageQueue" where
  "moveToDeadLetter now message reason q =
     (let dlqMessage = QueuedMessage.extend message
                         (DeadLetterMessage.fields reason now (topic message));
          dlq = deadLetterQueue q @ [dlqMessage]
      in q\<lparr>deadLetterQueue := (if int (length dlq) > maxDeadLetterSize q then tl dlq else dlq)\<rparr>)"

definition enqueue :: "int \<Rightarrow> string \<Rightarrow> QueuedMessage \<Rightarrow> MessageQueue \<Rightarrow> bool \<times> MessageQueue" where
  "enqueue now sid message q =
     (let queue = (case queues q sid of None \<Rightarrow> [] | Some xs \<Rightarrow> xs);
          (queue1, q1) =
            (if int (length queue) \<ge> maxQueueSize q then
               (case queue of
                  [] \<Rightarrow> (queue, q)
                | evicted # rest \<Rightarrow>
                    (rest, moveToDeadLetter now evicted ''Queue overflow - message evicted'' q))
             else (queue, q))
      in (True, q1\<lparr>queues := (queues q1)(sid \<mapsto> queue1 @ [message])\<rparr>))"

text \<open>The readiness test of \<open>dequeue\<close> and \<open>peek\<close>:
  \<open>!msg.nextRetryAt || msg.nextRetryAt <= now\<close>. The negation is true for an absent
  property and also for the number 0.\<close>

definition ready :: "int \<Rightarrow> QueuedMessage \<Rightarrow> bool" where
  "ready now msg = (case nextRetryAt msg of None \<Rightarrow> True | Some t \<Rightarrow> t = 0 \<or> t \<le> now)"

definition dequeue :: "int \<Rightarrow> string \<Rightarrow> MessageQueue \<Rightarrow> QueuedMessage option \<times> MessageQueue" where
  "dequeue now sid q =
     (case queues q sid of
        None \<Rightarrow> (None, q)
      | Some queue \<Rightarrow>
          if length queue = 0 then (None, q)
          else (case findIndex (ready now) queue of
                  None \<Rightarrow> (None, q)
                | Some readyIndex \<Rightarrow>
                    (Some (queue ! readyIndex),
                     q\<lparr>queues := (queues q)(sid \<mapsto> splice1 readyIndex queue)\<rparr>)))"

definition getQueueDepth :: "string \<Rightarrow> MessageQueue \<Rightarrow> nat" where
  "getQueueDepth sid q = (case queues q sid of None \<Rightarrow> 0 | Some queue \<Rightarrow> length queue)"

definition ack :: "string \<Rightarrow> string \<Rightarrow> MessageQueue \<Rightarrow> bool \<times> MessageQueue" where
  "ack sid messageId q =
     (case queues q sid of
        None \<Rightarrow> (False, q)
      | Some queue \<Rightarrow>
          (case findIndex (\<lambda>msg. msg_id msg = messageId) queue of
             None \<Rightarrow> (False, q)
           | Some index \<Rightarrow> (True, q\<lparr>queues := (queues q)(sid \<mapsto> splice1 index queue)\<rparr>)))"

text \<open>\<open>Math.min(1000 * Math.pow(2, attempts), 60000)\<close>: for a natural exponent the
  double-precision product is exact wherever it is below 60000, and above that the
  minimum is 60000 either way, so integer arithmetic gives the same number.\<close>

definition backoffMs :: "nat \<Rightarrow> int" where
  "backoffMs n = min (1000 * 2 ^ n) 60000"

definition nack :: "int \<Rightarrow> string \<Rightarrow> string \<Rightarrow> string \<Rightarrow> MessageQueue \<Rightarrow> bool \<times> MessageQueue" where
  "nack now sid messageId reason q =
     (case queues q sid of
        None \<Rightarrow> (False, q)
      | Some queue \<Rightarrow>
          (case findIndex (\<lambda>msg. msg_id msg = messageId) queue of
             None \<Rightarrow> (False, q)
           | Some index \<Rightarrow>
               (let message = (queue ! index)\<lparr>attempts := attempts (queue ! index) + 1\<rparr>
                in if int (attempts message) \<ge> maxRetries message then
                     (True, moveToDeadLetter now message reason
                              (q\<lparr>queues := (queues q)(sid \<mapsto> splice1 index queue)\<rparr>))
                   else
                     (True, q\<lparr>queues := (queues q)(sid \<mapsto>
                        queue[index := message\<lparr>nextRetryAt :=
                                 Some (now + backoffMs (attempts message))\<rparr>])\<rparr>))))"

definition getDeadLetterQueue :: "MessageQueue \<Rightarrow> DeadLetterMessage list" where
  "getDeadLetterQueue q = deadLetterQueue q"

definition retryFromDeadLetter :: "string \<Rightarrow> MessageQueue \<Rightarrow> DeadLetterMessage option \<times> MessageQueue" where
  "retryFromDeadLetter messageId q =
     (case findIndex (\<lambda>msg. msg_id msg = messageId) (deadLetterQueue q) of
        None \<Rightarrow> (None, q)
      | Some index \<Rightarrow>
          (Some ((deadLetterQueue q ! index)\<lparr>attempts := 0, nextRetryAt := None\<rparr>),
           q\<lparr>deadLetterQueue := splice1 index (deadLetterQueue q)\<rparr>))"

definition removeFromDeadLetter :: "string \<Rightarrow> MessageQueue \<Rightarrow> bool \<times> MessageQueue" where
  "removeFromDeadLetter messageId q =
     (case findIndex (\<lambda>msg. msg_id msg = messageId) (deadLetterQueue q) of
        None \<Rightarrow> (False, q)
      | Some index \<Rightarrow> (True, q\<lparr>deadLetterQueue := splice1 index (deadLetterQueue q)\<rparr>))"

text \<open>A run of acknowledgements against one queue, used to state what repeated
  negative acknowledgements do: each element is the clock reading of one \<open>nack\<close>.\<close>

fun nack_times :: "int list \<Rightarrow> string \<Rightarrow> string \<Rightarrow> string \<Rightarrow> MessageQueue \<Rightarrow> MessageQueue" where
  "nack_times [] sid messageId reason q = q"
| "nack_times (now # rest) sid messageId reason q =
     nack_times rest sid messageId reason (snd (nack now sid messageId reason q))"

section \<open>TopicManager (src/pubsub/topic.ts)\<close>

record TopicManager =
  topics :: "string \<rightharpoonup> Topic"
  messageHistory :: "string \<rightharpoonup> Message list"
  topicSubscribers :: "string \<rightharpoonup> string list"

definition new_TopicManager :: TopicManager where
  "new_TopicManager = \<lparr>topics = Map.empty, messageHistory = Map.empty, topicSubscribers = Map.empty\<rparr>"

text \<open>The character class of \<open>/^[a-zA-Z0-9._#*-]+$/\<close>. The pattern is anchored at both
  ends and its \<open>+\<close> asks for at least one character.\<close>

definition valid_topic_char :: "char \<Rightarrow> bool" where
  "valid_topic_char c =
     (let n = (of_char c :: nat)
      in (97 \<le> n \<and> n \<le> 122) \<or> (65 \<le> n \<and> n \<le> 90) \<or> (48 \<le> n \<and> n \<le> 57)
         \<or> c = CHR ''.'' \<or> c = CHR ''_'' \<or> c = CHR ''#'' \<or> c = CHR ''*'' \<or> c = CHR ''-'')"

definition valid_topic_name :: "string \<Rightarrow> bool" where
  "valid_topic_name n = (n \<noteq> [] \<and> list_all valid_topic_char n)"

definition defaultConfig :: TopicConfig where
  "defaultConfig =
     \<lparr>cfg_maxQueueSize = 1000, cfg_messageRetention = 3600000, cfg_maxRetries = 3,
      cfg_retryDelay = 5000, cfg_requireAck = False\<rparr>"

definition no_overrides :: TopicConfigPartial where
  "no_overrides =
     \<lparr>p_maxQueueSize = None, p_messageRetention = None, p_maxRetries = None,
      p_retryDelay = None, p_requireAck = None\<rparr>"

text \<open>The object spread \<open>{ ...defaultConfig, ...config }\<close>.\<close>

definition overlay :: "TopicConfig \<Rightarrow> TopicConfigPartial \<Rightarrow> TopicConfig" where
  "overlay d p =
     \<lparr>cfg_maxQueueSize = (case p_maxQueueSize p of None \<Rightarrow> cfg_maxQueueSize d | Some v \<Rightarrow> v),
      cfg_messageRetention =
        (case p_messageRetention p of None \<Rightarrow> cfg_messageRetention d | Some v \<Rightarrow> v),
      cfg_maxRetries = (case p_maxRetries p of None \<Rightarrow> cfg_maxRetries d | Some v \<Rightarrow> v),
      cfg_retryDelay = (case p_retryDelay p of None \<Rightarrow> cfg_retryDelay d | Some v \<Rightarrow> v),
      cfg_requireAck = (case p_requireAck p of None \<Rightarrow> cfg_requireAck d | Some v \<Rightarrow> v)\<rparr>"

definition createTopic ::
  "int \<Rightarrow> string \<Rightarrow> string \<Rightarrow> TopicConfigPartial \<Rightarrow> TopicManager \<Rightarrow> error + (Topic \<times> TopicManager)" where
  "createTopic now nm creator cfg tm =
     (if topics tm nm \<noteq> None then Inl (AlreadyExists nm)
      else if \<not> valid_topic_name nm then Inl InvalidName
      else
        (let tp = \<lparr>name = nm, createdAt = now, createdBy = creator, messageCount = 0,
                   subscriberCount = 0, config = overlay defaultConfig cfg\<rparr>
         in Inr (tp, tm\<lparr>topics := (topics tm)(nm \<mapsto> tp),
                        messageHistory := (messageHistory tm)(nm \<mapsto> []),
                        topicSubscribers := (topicSubscribers tm)(nm \<mapsto> [])\<rparr>)))"

definition getTopic :: "TopicManager \<Rightarrow> string \<Rightarrow> Topic option" where
  "getTopic tm nm = topics tm nm"

definition hasTopic :: "TopicManager \<Rightarrow> string \<Rightarrow> bool" where
  "hasTopic tm nm = (topics tm nm \<noteq> None)"

definition addSubscriber :: "string \<Rightarrow> string \<Rightarrow> TopicManager \<Rightarrow> bool \<times> TopicManager" where
  "addSubscriber topicName sid tm =
     (case topicSubscribers tm topicName of
        None \<Rightarrow> (False, tm)
      | Some subs \<Rightarrow>
          if List.member subs sid then (True, tm)
          else
            (let subs1 = subs @ [sid];
                 tm1 = tm\<lparr>topicSubscribers := (topicSubscribers tm)(topicName \<mapsto> subs1)\<rparr>
             in (True,
                 (case topics tm1 topicName of
                    None \<Rightarrow> tm1
                  | Some tp \<Rightarrow>
                      tm1\<lparr>topics := (topics tm1)(topicName \<mapsto>
                             tp\<lparr>subscriberCount := length subs1\<rparr>)\<rparr>))))"

definition getSubscribers :: "TopicManager \<Rightarrow> string \<Rightarrow> string list" where
  "getSubscribers tm topicName =
     (case topicSubscribers tm topicName of None \<Rightarrow> [] | Some subs \<Rightarrow> subs)"

text \<open>The two trimming loops of \<open>recordMessage\<close>:
  \<open>while (history.length > 0 && history[0].timestamp < cutoff) history.shift()\<close> and
  \<open>while (history.length > maxHistory) history.shift()\<close>.\<close>

fun trim_retention :: "int \<Rightarrow> Message list \<Rightarrow> Message list" where
  "trim_retention cutoff [] = []"
| "trim_retention cutoff (m # ms) =
     (if timestamp m < cutoff then trim_retention cutoff ms else m # ms)"

function trim_max :: "nat \<Rightarrow> Message list \<Rightarrow> Message list" where
  "trim_max maxHistory history =
     (if length history > maxHistory then trim_max maxHistory (tl history) else history)"
  by pat_completeness auto
termination
  by (relation "measure (\<lambda>(n, h). length h)") auto

declare trim_max.simps [simp del]

definition recordMessage :: "int \<Rightarrow> Message \<Rightarrow> TopicManager \<Rightarrow> TopicManager" where
  "recordMessage now message tm =
     (case topics tm (topic message) of
        None \<Rightarrow> tm
      | Some tp \<Rightarrow>
          (let tp1 = tp\<lparr>messageCount := messageCount tp + 1\<rparr>;
               history = (case messageHistory tm (topic message) of None \<Rightarrow> [] | Some h \<Rightarrow> h)
                         @ [message];
               retention = cfg_messageRetention (config tp1);
               cutoff = now - retention;
               history1 = trim_retention cutoff history;
               maxHistory = 1000;
               history2 = trim_max maxHistory history1
           in tm\<lparr>topics := (topics tm)(topic message \<mapsto> tp1),
                 messageHistory := (messageHistory tm)(topic message \<mapsto> history2)\<rparr>))"

text \<open>The history stored for a topic, empty when none is stored.\<close>

definition topic_history :: "TopicManager \<Rightarrow> string \<Rightarrow> Message list" where
  "topic_history tm topicName =
     (case messageHistory tm topicName of None \<Rightarrow> [] | Some h \<Rightarrow> h)"

section \<open>ConsumerGroupManager (src/pubsub/consumer-group.ts)\<close>

text \<open>The calls into the persistence layer (\<open>database.createConsumerGroup\<close>,
  \<open>database.commitConsumerGroupOffset\<close>) write to an external store and are left out:
  they read or change nothing of the manager's own state.\<close>

datatype LoadBalanceStrategy = RoundRobin | Sticky | Broadcast | Random

record ConsumerGroupMember =
  m_subscriberId :: string
  m_clientId :: string
  joinedAt :: int
  lastHeartbeat :: int
  assignedPartitions :: "nat list"
  messagesProcessed :: nat
  isLeader :: bool

record ConsumerGroup =
  g_name :: string
  g_topic :: string
  strategy :: LoadBalanceStrategy
  members :: "ConsumerGroupMember list"
  g_createdAt :: int
  currentOffset :: int
  committedOffset :: int

record ConsumerGroupManager =
  groups :: "string \<rightharpoonup> ConsumerGroup"
  memberToGroup :: "string \<rightharpoonup> string"
  roundRobinIndex :: "string \<rightharpoonup> nat"
  stickyAssignments :: "string \<rightharpoonup> string"

definition new_ConsumerGroupManager :: ConsumerGroupManager where
  "new_ConsumerGroupManager =
     \<lparr>groups = Map.empty, memberToGroup = Map.empty, roundRobinIndex = Map.empty,
      stickyAssignments = Map.empty\<rparr>"

definition createGroup ::
  "int \<Rightarrow> string \<Rightarrow> string \<Rightarrow> LoadBalanceStrategy \<Rightarrow> ConsumerGroupManager
     \<Rightarrow> error + (ConsumerGroup \<times> ConsumerGroupManager)" where
  "createGroup now nm tpc strat mgr =
     (if groups mgr nm \<noteq> None then Inl (AlreadyExists nm)
      else
        (let grp = \<lparr>g_name = nm, g_topic = tpc, strategy = strat, members = [],
                    g_createdAt = now, currentOffset = 0, committedOffset = 0\<rparr>
         in Inr (grp, mgr\<lparr>groups := (groups mgr)(nm \<mapsto> grp)\<rparr>)))"

text \<open>The loop of \<open>rebalance\<close> over the member indices: member \<open>i\<close> gets
  \<open>partitionsPerMember\<close> partitions, one more when \<open>i < remainder\<close>, numbered
  consecutively from \<open>partitionIndex\<close>.\<close>

fun assignPartitions ::
  "nat \<Rightarrow> nat \<Rightarrow> nat \<Rightarrow> nat \<Rightarrow> ConsumerGroupMember list \<Rightarrow> ConsumerGroupMember list" where
  "assignPartitions partitionsPerMember remainder i partitionIndex [] = []"
| "assignPartitions partitionsPerMember remainder i partitionIndex (m # ms) =
     (let extra = (if i < remainder then 1 else 0);
          count = partitionsPerMember + extra
      in m\<lparr>assignedPartitions := [partitionIndex ..< partitionIndex + count]\<rparr>
         # assignPartitions partitionsPerMember remainder (i + 1) (partitionIndex + count) ms)"

definition rebalance :: "string \<Rightarrow> ConsumerGroupManager \<Rightarrow> ConsumerGroupManager" where
  "rebalance groupName mgr =
     (case groups mgr groupName of
        None \<Rightarrow> mgr
      | Some grp \<Rightarrow>
          (let numPartitions = 16;
               numMembers = length (members grp)
           in if numMembers = 0 then mgr
              else mgr\<lparr>groups := (groups mgr)(groupName \<mapsto>
                     grp\<lparr>members := assignPartitions (numPartitions div numMembers)
                                      (numPartitions mod numMembers) 0 0 (members grp)\<rparr>)\<rparr>))"

text \<open>\<open>joinGroup\<close> returns the member object; the object is the one stored in the
  group, so what the caller sees is the member as \<open>rebalance\<close> left it.\<close>

definition joinGroup ::
  "int \<Rightarrow> string \<Rightarrow> string \<Rightarrow> string \<Rightarrow> ConsumerGroupManager
     \<Rightarrow> error + (ConsumerGroupMember \<times> ConsumerGroupManager)" where
  "joinGroup now groupName sid cid mgr =
     (case groups mgr groupName of
        None \<Rightarrow> Inl (NotFound groupName)
      | Some grp \<Rightarrow>
          (case findIndex (\<lambda>m. m_subscriberId m = sid) (members grp) of
             Some i \<Rightarrow>
               (let member = (members grp ! i)\<lparr>lastHeartbeat := now\<rparr>
                in Inr (member, mgr\<lparr>groups := (groups mgr)(groupName \<mapsto>
                                        grp\<lparr>members := (members grp)[i := member]\<rparr>)\<rparr>))
           | None \<Rightarrow>
               (let member = \<lparr>m_subscriberId = sid, m_clientId = cid, joinedAt = now,
                              lastHeartbeat = now, assignedPartitions = [],
                              messagesProcessed = 0,
                              isLeader = (length (members grp) = 0)\<rparr>;
                    mgr1 = mgr\<lparr>groups := (groups mgr)(groupName \<mapsto>
                                    grp\<lparr>members := members grp @ [member]\<rparr>),
                               memberToGroup := (memberToGroup mgr)(sid \<mapsto> groupName)\<rparr>;
                    mgr2 = rebalance groupName mgr1
                in Inr ((case groups mgr2 groupName of
                           None \<Rightarrow> member
                         | Some grp2 \<Rightarrow>
                             (case find (\<lambda>m. m_subscriberId m = sid) (members grp2) of
                                None \<Rightarrow> member
                              | Some m2 \<Rightarrow> m2)),
                        mgr2))))"

definition leaveGroup :: "string \<Rightarrow> ConsumerGroupManager \<Rightarrow> ConsumerGroupManager" where
  "leaveGroup sid mgr =
     (case memberToGroup mgr sid of
        None \<Rightarrow> mgr
      | Some groupName \<Rightarrow>
          (case groups mgr groupName of
             None \<Rightarrow> mgr
           | Some grp \<Rightarrow>
               (case findIndex (\<lambda>m. m_subscriberId m = sid) (members grp) of
                  None \<Rightarrow> mgr
                | Some memberIndex \<Rightarrow>
                    (let wasLeader = isLeader (members grp ! memberIndex);
                         ms1 = splice1 memberIndex (members grp);
                         ms2 = (if wasLeader \<and> length ms1 > 0 then
                                  (case ms1 of
                                     [] \<Rightarrow> ms1
                                   | m # rest \<Rightarrow> m\<lparr>isLeader := True\<rparr> # rest)
                                else ms1);
                         mgr1 = mgr\<lparr>groups := (groups mgr)(groupName \<mapsto> grp\<lparr>members := ms2\<rparr>),
                                    memberToGroup := (memberToGroup mgr)(sid := None)\<rparr>
                     in rebalance groupName mgr1))))"

text \<open>\<open>roundRobinSelect\<close> is private and only called for a group with at least one
  member.\<close>

definition roundRobinSelect :: "ConsumerGroup \<Rightarrow> ConsumerGroupManager \<Rightarrow> string \<times> ConsumerGroupManager" where
  "roundRobinSelect grp mgr =
     (let index = (case roundRobinIndex mgr (g_name grp) of None \<Rightarrow> 0 | Some i \<Rightarrow> i);
          member = members grp ! (index mod length (members grp))
      in (m_subscriberId member,
          mgr\<lparr>roundRobinIndex := (roundRobinIndex mgr)(g_name grp \<mapsto> index + 1)\<rparr>))"

text \<open>\<open>getNextSubscriber\<close>. The sticky and the random selection depend on a string
  hash of payload properties and on \<open>Math.random()\<close>; they are arguments here
  (\<open>stickySelect\<close>, \<open>randomSelect\<close>), so that every statement about the other two
  strategies holds whatever they choose.\<close>

definition getNextSubscriber ::
  "(ConsumerGroup \<Rightarrow> Message \<Rightarrow> ConsumerGroupManager \<Rightarrow> string \<times> ConsumerGroupManager)
     \<Rightarrow> (ConsumerGroup \<Rightarrow> string)
     \<Rightarrow> string \<Rightarrow> Message \<Rightarrow> ConsumerGroupManager \<Rightarrow> string option \<times> ConsumerGroupManager" where
  "getNextSubscriber stickySelect randomSelect groupName message mgr =
     (case groups mgr groupName of
        None \<Rightarrow> (None, mgr)
      | Some grp \<Rightarrow>
          if length (members grp) = 0 then (None, mgr)
          else (case strategy grp of
                  RoundRobin \<Rightarrow> (let (s, mgr1) = roundRobinSelect grp mgr in (Some s, mgr1))
                | Sticky \<Rightarrow> (let (s, mgr1) = stickySelect grp message mgr in (Some s, mgr1))
                | Random \<Rightarrow> (Some (randomSelect grp), mgr)
                | Broadcast \<Rightarrow> (None, mgr)))"

definition getAllSubscribers :: "string \<Rightarrow> ConsumerGroupManager \<Rightarrow> string list" where
  "getAllSubscribers groupName mgr =
     (case groups mgr groupName of None \<Rightarrow> [] | Some grp \<Rightarrow> map m_subscriberId (members grp))"

text \<open>Sequences of membership operations. An operation that throws leaves the
  manager as it was.\<close>

datatype group_op =
  CreateGroup int string string LoadBalanceStrategy
  | JoinGroup int string string string
  | LeaveGroup string

fun apply_group_op :: "group_op \<Rightarrow> ConsumerGroupManager \<Rightarrow> ConsumerGroupManager" where
  "apply_group_op (CreateGroup now nm tpc strat) mgr =
     (case createGroup now nm tpc strat mgr of Inl e \<Rightarrow> mgr | Inr (g, mgr1) \<Rightarrow> mgr1)"
| "apply_group_op (JoinGroup now groupName sid cid) mgr =
     (case joinGroup now groupName sid cid mgr of Inl e \<Rightarrow> mgr | Inr (m, mgr1) \<Rightarrow> mgr1)"
| "apply_group_op (LeaveGroup sid) mgr = leaveGroup sid mgr"

definition run_group_ops :: "group_op list \<Rightarrow> ConsumerGroupManager \<Rightarrow> ConsumerGroupManager" where
  "run_group_ops ops mgr = foldl (\<lambda>m opn. apply_group_op opn m) mgr ops"

definition leaders :: "ConsumerGroup \<Rightarrow> ConsumerGroupMember list" where
  "leaders grp = filter isLeader (members grp)"

section \<open>MessageBroker (src/pubsub/broker.ts)\<close>

text \<open>
  A subscriber's callback is a function of the message that says whether the call
  returns (\<open>True\<close>) or throws (\<open>False\<close>); every invocation is appended to \<open>sink_log\<close>
  with the subscriber it was made for. Callbacks and event handlers do not call back
  into the broker. Event emission (\<open>emit\<close>) only calls external handlers, whose
  exceptions are caught, and is left out, as are the request/reply promises and the
  cleanup timer. The identifier that \<open>generateId()\<close> produces from the clock and
  \<open>Math.random()\<close> is the argument \<open>gid\<close> of the operation that asks for one.
\<close>

type_synonym callback = "Message \<Rightarrow> bool"

record MessageBroker =
  topicManager :: TopicManager
  messageQueue :: MessageQueue
  subscribers :: "string \<rightharpoonup> Subscriber"
  publishers :: "string \<rightharpoonup> Publisher"
  messageCallbacks :: "string \<rightharpoonup> callback"
  sink_log :: "(string \<times> Message) list"
  totalMessages :: nat
  messagesLastMinute :: "int list"

text \<open>The constructor: \<open>new TopicManager()\<close> and \<open>new MessageQueue()\<close>, the latter
  with its default arguments \<open>maxQueueSize = 10000\<close>, \<open>maxDeadLetterSize = 1000\<close>.\<close>

definition new_MessageBroker :: MessageBroker where
  "new_MessageBroker =
     \<lparr>topicManager = new_TopicManager, messageQueue = new_MessageQueue 10000 1000,
      subscribers = Map.empty, publishers = Map.empty, messageCallbacks = Map.empty,
      sink_log = [], totalMessages = 0, messagesLastMinute = []\<rparr>"

definition broker_createTopic ::
  "int \<Rightarrow> string \<Rightarrow> string \<Rightarrow> TopicConfigPartial \<Rightarrow> MessageBroker \<Rightarrow> error + (Topic \<times> MessageBroker)" where
  "broker_createTopic now nm creator cfg b =
     (case createTopic now nm creator cfg (topicManager b) of
        Inl e \<Rightarrow> Inl e
      | Inr (tp, tm) \<Rightarrow> Inr (tp, b\<lparr>topicManager := tm\<rparr>))"

text \<open>One entry of a header filter: \<open>message.headers?.[key]\<close> must be a non-empty
  string that the pattern accepts.\<close>

fun header_ok :: "(string \<times> string) list option \<Rightarrow> string \<times> header_pattern \<Rightarrow> bool" where
  "header_ok hs (key, pattern) =
     (case (case hs of None \<Rightarrow> None | Some h \<Rightarrow> map_of h key) of
        None \<Rightarrow> False
      | Some v \<Rightarrow>
          if v = [] then False
          else (case pattern of HRegExp test \<Rightarrow> test v | HLiteral lit \<Rightarrow> v = lit))"

fun payload_ok :: "(string \<times> jsval) list \<Rightarrow> string \<times> jsval \<Rightarrow> bool" where
  "payload_ok props (key, expected) =
     ((case map_of props key of None \<Rightarrow> JUndefined | Some actual \<Rightarrow> actual) = expected)"

definition matchesFilter :: "Message \<Rightarrow> MessageFilter option \<Rightarrow> bool" where
  "matchesFilter message flt =
     (case flt of
        None \<Rightarrow> True
      | Some f \<Rightarrow>
          (case f_headers f of None \<Rightarrow> True | Some hs \<Rightarrow> list_all (header_ok (headers message)) hs)
          \<and> (case f_payload f of
               None \<Rightarrow> True
             | Some ps \<Rightarrow>
                 (case payload message of
                    PObject props \<Rightarrow> list_all (payload_ok props) ps
                  | PValue v \<Rightarrow> True)))"

text \<open>\<open>queueMessage\<close>. The queued message is the spread of the message it is given;
  when that message was itself taken from a queue (\<open>drainQueue\<close>), the spread carries
  its \<open>nextRetryAt\<close> along: this is the argument \<open>carried\<close>.
  \<open>config?.maxRetries || 3\<close> is 3 for a missing topic and for the value 0.\<close>

definition queueMessage :: "int \<Rightarrow> string \<Rightarrow> Message \<Rightarrow> int option \<Rightarrow> MessageBroker \<Rightarrow> MessageBroker" where
  "queueMessage now sid message carried b =
     (let cfg = map_option config (getTopic (topicManager b) (topic message));
          queuedMessage = Message.extend message
             (QueuedMessage.fields sid now 0
                (case cfg of
                   None \<Rightarrow> 3
                 | Some c \<Rightarrow> if cfg_maxRetries c = 0 then 3 else cfg_maxRetries c)
                carried);
          mq = snd (enqueue now sid queuedMessage (messageQueue b));
          b1 = b\<lparr>messageQueue := mq\<rparr>
      in (case subscribers b1 sid of
            None \<Rightarrow> b1
          | Some s \<Rightarrow>
              b1\<lparr>subscribers := (subscribers b1)(sid \<mapsto>
                    s\<lparr>pendingMessages := getQueueDepth sid mq\<rparr>)\<rparr>))"

definition deliverMessage :: "int \<Rightarrow> string \<Rightarrow> Message \<Rightarrow> int option \<Rightarrow> MessageBroker \<Rightarrow> MessageBroker" where
  "deliverMessage now sid message carried b =
     (case messageCallbacks b sid of
        None \<Rightarrow> b
      | Some cb \<Rightarrow>
          (let b1 = b\<lparr>sink_log := sink_log b @ [(sid, message)]\<rparr>
           in if cb message then
                (case subscribers b1 sid of
                   None \<Rightarrow> b1
                 | Some s \<Rightarrow>
                     b1\<lparr>subscribers := (subscribers b1)(sid \<mapsto>
                           s\<lparr>deliveredMessages := deliveredMessages s + 1,
                             lastActivity := now\<rparr>)\<rparr>)
              else queueMessage now sid message carried b1))"

text \<open>The body of the loop of \<open>routeMessage\<close> for one subscriber id, and the loop.\<close>

definition routeOne :: "int \<Rightarrow> Message \<Rightarrow> string \<Rightarrow> MessageBroker \<Rightarrow> MessageBroker" where
  "routeOne now message sid b =
     (case subscribers b sid of
        None \<Rightarrow> b
      | Some subscriber \<Rightarrow>
          if sub_filter subscriber \<noteq> None \<and> \<not> matchesFilter message (sub_filter subscriber)
          then b
          else if isOnline subscriber then deliverMessage now sid message None b
          else queueMessage now sid message None b)"

fun routeLoop :: "int \<Rightarrow> Message \<Rightarrow> string list \<Rightarrow> MessageBroker \<Rightarrow> MessageBroker" where
  "routeLoop now message [] b = b"
| "routeLoop now message (sid # rest) b = routeLoop now message rest (routeOne now message sid b)"

definition routeMessage :: "int \<Rightarrow> Message \<Rightarrow> MessageBroker \<Rightarrow> MessageBroker" where
  "routeMessage now message b =
     (let subscriberIds = getSubscribers (topicManager b) (topic message);
          wildcardSubscriberIds = getSubscribers (topicManager b) ''#'';
          allSubscriberIds = new_Set (subscriberIds @ wildcardSubscriberIds)
      in routeLoop now message allSubscriberIds b)"

definition trackPublisher :: "int \<Rightarrow> string \<Rightarrow> string \<Rightarrow> MessageBroker \<Rightarrow> MessageBroker" where
  "trackPublisher now pid tpc b =
     (let publisher =
            (case publishers b pid of
               None \<Rightarrow> \<lparr>pub_id = pid, pub_clientId = pid, pub_createdAt = now,
                         pub_lastActivity = now, publishedMessages = 0, pub_topics = []\<rparr>
             | Some p \<Rightarrow> p)
      in b\<lparr>publishers := (publishers b)(pid \<mapsto>
             publisher\<lparr>publishedMessages := publishedMessages publisher + 1,
                       pub_lastActivity := now,
                       pub_topics := set_add (pub_topics publisher) tpc\<rparr>)\<rparr>)"

record publish_options =
  o_headers :: "(string \<times> string) list option"
  o_ttl :: "int option"
  o_correlationId :: "string option"
  o_replyTo :: "string option"

definition no_options :: publish_options where
  "no_options = \<lparr>o_headers = None, o_ttl = None, o_correlationId = None, o_replyTo = None\<rparr>"

text \<open>\<open>publish\<close>. The only exception is the one of \<open>createTopic\<close> when the topic has to
  be created first; it is raised before anything is changed.\<close>

definition publish ::
  "int \<Rightarrow> string \<Rightarrow> string \<Rightarrow> js_payload \<Rightarrow> string \<Rightarrow> publish_options \<Rightarrow> MessageBroker
     \<Rightarrow> error + (Message \<times> MessageBroker)" where
  "publish now gid tpc pl pid opts b =
     (case (if \<not> hasTopic (topicManager b) tpc
            then (case createTopic now tpc pid no_overrides (topicManager b) of
                    Inl e \<Rightarrow> Inl e
                  | Inr (tp, tm) \<Rightarrow> Inr tm)
            else Inr (topicManager b)) of
        Inl e \<Rightarrow> Inl e
      | Inr tm1 \<Rightarrow>
          (let message = \<lparr>msg_id = gid, topic = tpc, payload = pl, timestamp = now,
                          publisherId = pid, headers = o_headers opts, replyTo = o_replyTo opts,
                          correlationId = o_correlationId opts, ttl = o_ttl opts,
                          retryCount = None\<rparr>;
               b1 = b\<lparr>topicManager := recordMessage now message tm1\<rparr>;
               b2 = trackPublisher now pid tpc b1;
               b3 = routeMessage now message b2
           in Inr (message, b3\<lparr>totalMessages := totalMessages b3 + 1,
                                messagesLastMinute := messagesLastMinute b3 @ [now]\<rparr>)))"

text \<open>The loop of \<open>drainQueue\<close>:
  \<open>while ((message = this.messageQueue.dequeue(subscriberId))) this.deliverMessage(...)\<close>.
  A callback that throws puts the message back into the queue, so the loop need not
  end: \<open>None\<close> is the run that never returns.\<close>

partial_function (option) drainLoop :: "int \<Rightarrow> string \<Rightarrow> MessageBroker \<Rightarrow> MessageBroker option" where
  "drainLoop now sid b =
     (case dequeue now sid (messageQueue b) of
        (r, mq) \<Rightarrow>
          (case r of
             None \<Rightarrow> Some b
           | Some message \<Rightarrow>
               drainLoop now sid
                 (deliverMessage now sid (Message.truncate message) (nextRetryAt message)
                    (b\<lparr>messageQueue := mq\<rparr>))))"

definition drainQueue :: "int \<Rightarrow> string \<Rightarrow> MessageBroker \<Rightarrow> MessageBroker option" where
  "drainQueue now sid b =
     (case drainLoop now sid b of
        None \<Rightarrow> None
      | Some b1 \<Rightarrow>
          Some (case subscribers b1 sid of
                  None \<Rightarrow> b1
                | Some s \<Rightarrow>
                    b1\<lparr>subscribers := (subscribers b1)(sid \<mapsto>
                          s\<lparr>pendingMessages := getQueueDepth sid (messageQueue b1)\<rparr>)\<rparr>))"

text \<open>The loop of \<open>subscribe\<close> over the topics. \<open>createTopic\<close> may throw for a new topic
  with an invalid name; what the earlier iterations did stays done.\<close>

fun subscribeTopics ::
  "int \<Rightarrow> string \<Rightarrow> string \<Rightarrow> string list \<Rightarrow> TopicManager \<Rightarrow> error option \<times> TopicManager" where
  "subscribeTopics now cid sid [] tm = (None, tm)"
| "subscribeTopics now cid sid (t # ts) tm =
     (if \<not> hasTopic tm t then
        (case createTopic now t cid no_overrides tm of
           Inl e \<Rightarrow> (Some e, tm)
         | Inr (tp, tm1) \<Rightarrow> subscribeTopics now cid sid ts (snd (addSubscriber t sid tm1)))
      else subscribeTopics now cid sid ts (snd (addSubscriber t sid tm)))"

text \<open>One iteration of that loop when it does not throw.\<close>

definition subscribe_step :: "int \<Rightarrow> string \<Rightarrow> string \<Rightarrow> string \<Rightarrow> TopicManager \<Rightarrow> TopicManager" where
  "subscribe_step now cid sid t tm =
     (if \<not> hasTopic tm t then
        (case createTopic now t cid no_overrides tm of
           Inl e \<Rightarrow> tm
         | Inr (tp, tm1) \<Rightarrow> snd (addSubscriber t sid tm1))
      else snd (addSubscriber t sid tm))"

text \<open>\<open>subscribe\<close>: \<open>None\<close> when the drain never returns, otherwise the exception or
  the subscriber (the object stored under its id), and the broker.\<close>

definition subscribe ::
  "int \<Rightarrow> string \<Rightarrow> string \<Rightarrow> string list \<Rightarrow> callback \<Rightarrow> MessageFilter option \<Rightarrow> MessageBroker
     \<Rightarrow> ((error + Subscriber) \<times> MessageBroker) option" where
  "subscribe now gid cid tps cb flt b =
     (let sid = ''sub_'' @ cid @ ''_'' @ gid;
          subscriber = \<lparr>sub_id = sid, clientId = cid, sub_topics = new_Set tps,
                        sub_createdAt = now, lastActivity = now, isOnline = True,
                        pendingMessages = 0, deliveredMessages = 0, sub_filter = flt\<rparr>;
          b1 = b\<lparr>subscribers := (subscribers b)(sid \<mapsto> subscriber),
                 messageCallbacks := (messageCallbacks b)(sid \<mapsto> cb)\<rparr>
      in (case subscribeTopics now cid sid tps (topicManager b1) of
            (Some e, tm) \<Rightarrow> Some (Inl e, b1\<lparr>topicManager := tm\<rparr>)
          | (None, tm) \<Rightarrow>
              (case drainQueue now sid (b1\<lparr>topicManager := tm\<rparr>) of
                 None \<Rightarrow> None
               | Some b2 \<Rightarrow>
                   Some (Inr (case subscribers b2 sid of None \<Rightarrow> subscriber | Some s \<Rightarrow> s),
                         b2))))"

definition setSubscriberOnline :: "int \<Rightarrow> string \<Rightarrow> bool \<Rightarrow> MessageBroker \<Rightarrow> MessageBroker option" where
  "setSubscriberOnline now sid online b =
     (case subscribers b sid of
        None \<Rightarrow> Some b
      | Some s \<Rightarrow>
          (let b1 = b\<lparr>subscribers := (subscribers b)(sid \<mapsto>
                         s\<lparr>isOnline := online, lastActivity := now\<rparr>)\<rparr>
           in if online then drainQueue now sid b1 else Some b1))"

definition broker_ack :: "string \<Rightarrow> string \<Rightarrow> MessageBroker \<Rightarrow> bool \<times> MessageBroker" where
  "broker_ack sid messageId b =
     (let (r, mq) = ack sid messageId (messageQueue b) in (r, b\<lparr>messageQueue := mq\<rparr>))"

definition broker_nack :: "int \<Rightarrow> string \<Rightarrow> string \<Rightarrow> string \<Rightarrow> MessageBroker \<Rightarrow> bool \<times> MessageBroker" where
  "broker_nack now sid messageId reason b =
     (let (r, mq) = nack now sid messageId reason (messageQueue b)
      in (r, b\<lparr>messageQueue := mq\<rparr>))"

text \<open>\<open>retryDeadLetter\<close> reads the property \<open>message\<close> of the entry it found. A
  dead-letter entry is the object \<open>moveToDeadLetter\<close> builds: the spread of the queued
  message plus \<open>failureReason\<close>, \<open>failedAt\<close> and \<open>originalTopic\<close>. Neither type
  declares a property \<open>message\<close> and nothing sets one, so the read is \<open>undefined\<close>.\<close>

definition dlq_item_message :: "DeadLetterMessage \<Rightarrow> Message option" where
  "dlq_item_message item = None"

definition retryDeadLetter :: "int \<Rightarrow> string \<Rightarrow> MessageBroker \<Rightarrow> bool \<times> MessageBroker" where
  "retryDeadLetter now messageId b =
     (let dlq = getDeadLetterQueue (messageQueue b)
      in (case find (\<lambda>m. msg_id m = messageId) dlq of
            None \<Rightarrow> (False, b)
          | Some item \<Rightarrow>
              (case dlq_item_message item of
                 None \<Rightarrow> (False, b)
               | Some msg \<Rightarrow>
                   (let b1 = routeMessage now msg b
                    in (True, b1\<lparr>messageQueue :=
                                   snd (removeFromDeadLetter messageId (messageQueue b1))\<rparr>)))))"

text \<open>What a subscriber's sink has been called with, in call order.\<close>

definition sink_calls :: "string \<Rightarrow> MessageBroker \<Rightarrow> Message list" where
  "sink_calls sid b = map snd (filter (\<lambda>e. fst e = sid) (sink_log b))"

text \<open>A sequence of \<open>publish\<close> calls, each with its clock reading and generated id. A
  call that throws changes nothing and publishes no message; the result lists the
  messages that were published, in order.\<close>

record publish_request =
  r_now :: int
  r_gid :: string
  r_topic :: string
  r_payload :: js_payload
  r_publisherId :: string
  r_options :: publish_options

fun publish_all :: "publish_request list \<Rightarrow> MessageBroker \<Rightarrow> Message list \<times> MessageBroker" where
  "publish_all [] b = ([], b)"
| "publish_all (r # rs) b =
     (case publish (r_now r) (r_gid r) (r_topic r) (r_payload r) (r_publisherId r) (r_options r) b of
        Inl e \<Rightarrow> publish_all rs b
      | Inr (m, b1) \<Rightarrow> (let (ms, b2) = publish_all rs b1 in (m # ms, b2)))"

text \<open>A subscriber that is registered with a callback, online, without a filter, and
  in the subscriber set of the existing topic \<open>#\<close>.\<close>

definition wildcard_online :: "string \<Rightarrow> MessageBroker \<Rightarrow> bool" where
  "wildcard_online sid b =
     ((case subscribers b sid of
         None \<Rightarrow> False
       | Some s \<Rightarrow> isOnline s \<and> sub_filter s = None)
      \<and> messageCallbacks b sid \<noteq> None
      \<and> hasTopic (topicManager b) ''#''
      \<and> List.member (getSubscribers (topicManager b) ''#'') sid)"

section \<open>Example values\<close>

definition ex_message :: "string \<Rightarrow> string \<Rightarrow> int \<Rightarrow> Message" where
  "ex_message i t ts =
     \<lparr>msg_id = i, topic = t, payload = PValue JNull, timestamp = ts, publisherId = ''pub'',
      headers = None, replyTo = None, correlationId = None, ttl = None, retryCount = None\<rparr>"

definition ex_queued :: "string \<Rightarrow> nat \<Rightarrow> int \<Rightarrow> int option \<Rightarrow> QueuedMessage" where
  "ex_queued i a mr nra =
     Message.extend (ex_message i ''t'' 0) (QueuedMessage.fields ''s'' 0 a mr nra)"

text \<open>A queue store in which subscriber \<open>s\<close> holds three messages, the first one
  waiting for a retry at time 100.\<close>

definition ex_queue :: MessageQueue where
  "ex_queue =
     \<lparr>queues = [''s'' \<mapsto> [ex_queued ''m1'' 1 3 (Some 100), ex_queued ''m2'' 0 3 None,
                          ex_queued ''m3'' 0 3 None]],
      deadLetterQueue = [], maxQueueSize = 10000, maxDeadLetterSize = 1000\<rparr>"

definition ex_broker :: MessageBroker where
  "ex_broker = new_MessageBroker\<lparr>messageQueue := ex_queue\<rparr>"

text \<open>The characters the name pattern accepts, spelled out.\<close>

definition allowed_topic_chars :: string where
  "allowed_topic_chars = ''abcdefghijklmnopqrstuvwxyzABCDEFGHIJKLMNOPQRSTUVWXYZ0123456789._#*-''"

text \<open>A topic registry with one topic \<open>t\<close> of retention 10 ms whose history holds one
  message of time 100.\<close>

definition ex_topics :: TopicManager where
  "ex_topics =
     \<lparr>topics = [''t'' \<mapsto> \<lparr>name = ''t'', createdAt = 0, createdBy = ''u'', messageCount = 1,
                            subscriberCount = 0,
                            config = defaultConfig\<lparr>cfg_messageRetention := 10\<rparr>\<rparr>],
      messageHistory = [''t'' \<mapsto> [ex_message ''m1'' ''t'' 100]],
      topicSubscribers = [''t'' \<mapsto> []]\<rparr>"

text \<open>A group created, joined by three subscribers in turn and left by the first.\<close>

definition ex_group_ops :: "group_op list" where
  "ex_group_ops =
     [CreateGroup 0 ''g'' ''t'' RoundRobin, JoinGroup 1 ''g'' ''s1'' ''c1'',
      JoinGroup 2 ''g'' ''s2'' ''c2'', JoinGroup 3 ''g'' ''s3'' ''c3'', LeaveGroup ''s1'']"

section \<open>Scenarios and auxiliary notions\<close>

text \<open>Whether \<open>routeMessage\<close> invokes the sink of subscriber \<open>x\<close> for message \<open>m\<close>: the
  subscriber is registered, passes its filter, is online and has a callback.\<close>

definition delivers :: "MessageBroker \<Rightarrow> Message \<Rightarrow> string \<Rightarrow> bool" where
  "delivers b m x =
     ((case map_option sub_filter (subscribers b x) of
         None \<Rightarrow> False
       | Some f \<Rightarrow> f = None \<or> matchesFilter m f)
      \<and> map_option isOnline (subscribers b x) = Some True
      \<and> messageCallbacks b x \<noteq> None)"

text \<open>A publish request for topic \<open>tpc\<close> at time \<open>t\<close> whose message gets the id \<open>g\<close>.\<close>

definition ex_request :: "int \<Rightarrow> string \<Rightarrow> string \<Rightarrow> publish_request" where
  "ex_request t g tpc =
     \<lparr>r_now = t, r_gid = g, r_topic = tpc, r_payload = PValue JNull, r_publisherId = ''pub'',
      r_options = no_options\<rparr>"

text \<open>Scenario: a topic created with \<open>maxQueueSize = 2\<close>, one subscriber that is then
  set offline, three messages published. The result is the depth of the subscriber's
  queue and the number of dead-letter entries.\<close>

definition scenario_overflow :: "(nat \<times> nat) option" where
  "scenario_overflow =
     (case broker_createTopic 0 ''t'' ''u'' (no_overrides\<lparr>p_maxQueueSize := Some 2\<rparr>)
             new_MessageBroker of
        Inl e \<Rightarrow> None
      | Inr (tp, b1) \<Rightarrow>
          (case subscribe 1 ''g0'' ''c'' [''t''] (\<lambda>m. True) None b1 of
             None \<Rightarrow> None
           | Some (Inl e, b2) \<Rightarrow> None
           | Some (Inr sub, b2) \<Rightarrow>
               (case setSubscriberOnline 2 (sub_id sub) False b2 of
                  None \<Rightarrow> None
                | Some b3 \<Rightarrow>
                    (let b4 = snd (publish_all [ex_request 3 ''m1'' ''t'', ex_request 4 ''m2'' ''t'',
                                               ex_request 5 ''m3'' ''t''] b3)
                     in Some (getQueueDepth (sub_id sub) (messageQueue b4),
                              length (deadLetterQueue (messageQueue b4)))))))"

text \<open>Repeated selection from a group; the two selectors that are not modelled are
  never reached for a round-robin group.\<close>

fun select_times ::
  "nat \<Rightarrow> string \<Rightarrow> Message \<Rightarrow> ConsumerGroupManager \<Rightarrow> string option list" where
  "select_times 0 groupName message mgr = []"
| "select_times (Suc n) groupName message mgr =
     (let (r, mgr1) = getNextSubscriber (\<lambda>g m s. ('''', s)) (\<lambda>g. '''') groupName message mgr
      in r # select_times n groupName message mgr1)"

text \<open>Scenario: three online subscribers of topic \<open>t\<close>, a round-robin consumer group
  on \<open>t\<close> that they join in order, six messages published to \<open>t\<close>. The result lists,
  per subscriber, the ids of the messages its sink was called with.\<close>

definition ex_three_subscribers :: "MessageBroker option" where
  "ex_three_subscribers =
     (case subscribe 1 ''g1'' ''c1'' [''t''] (\<lambda>m. True) None new_MessageBroker of
        Some (Inr s1, b1) \<Rightarrow>
          (case subscribe 2 ''g2'' ''c2'' [''t''] (\<lambda>m. True) None b1 of
             Some (Inr s2, b2) \<Rightarrow>
               (case subscribe 3 ''g3'' ''c3'' [''t''] (\<lambda>m. True) None b2 of
                  Some (Inr s3, b3) \<Rightarrow> Some b3
                | _ \<Rightarrow> None)
           | _ \<Rightarrow> None)
      | _ \<Rightarrow> None)"

definition ex_round_robin_group :: ConsumerGroupManager where
  "ex_round_robin_group =
     run_group_ops
       [CreateGroup 0 ''g'' ''t'' RoundRobin, JoinGroup 4 ''g'' ''sub_c1_g1'' ''c1'',
        JoinGroup 5 ''g'' ''sub_c2_g2'' ''c2'', JoinGroup 6 ''g'' ''sub_c3_g3'' ''c3'']
       new_ConsumerGroupManager"

definition ex_six_requests :: "publish_request list" where
  "ex_six_requests =
     [ex_request 10 ''m1'' ''t'', ex_request 11 ''m2'' ''t'', ex_request 12 ''m3'' ''t'',
      ex_request 13 ''m4'' ''t'', ex_request 14 ''m5'' ''t'', ex_request 15 ''m6'' ''t'']"

definition scenario_group_delivery :: "(string list list) option" where
  "scenario_group_delivery =
     (case ex_three_subscribers of
        None \<Rightarrow> None
      | Some b \<Rightarrow>
          (let b1 = snd (publish_all ex_six_requests b)
           in Some (map (\<lambda>sid. map msg_id (sink_calls sid b1))
                      [''sub_c1_g1'', ''sub_c2_g2'', ''sub_c3_g3''])))"

text \<open>A broker whose dead-letter queue holds message \<open>m1\<close>, put there by the second
  negative acknowledgement of the example queue's first message.\<close>

definition ex_dead_broker :: MessageBroker where
  "ex_dead_broker =
     new_MessageBroker\<lparr>messageQueue := nack_times [10, 20] ''s'' ''m1'' ''boom'' ex_queue\<rparr>"

section \<open>Array helpers: facts\<close>

lemma findIndex_None_iff: "findIndex P xs = None \<longleftrightarrow> list_all (\<lambda>x. \<not> P x) xs"
  by (induction xs) auto

lemma findIndex_first:
  "list_all (\<lambda>x. \<not> P x) pre \<Longrightarrow> P m \<Longrightarrow> findIndex P (pre @ m # post) = Some (length pre)"
  by (induction pre) auto

lemma findIndex_Some_split:
  "findIndex P xs = Some i \<Longrightarrow>
     i < length xs \<and> P (xs ! i) \<and> list_all (\<lambda>x. \<not> P x) (take i xs)"
proof (induction xs arbitrary: i)
  case Nil
  then show ?case by simp
next
  case (Cons x xs)
  show ?case
  proof (cases "P x")
    case True
    with Cons.prems show ?thesis by simp
  next
    case False
    with Cons.prems obtain j where j: "findIndex P xs = Some j" "i = Suc j"
      by auto
    from Cons.IH[OF j(1)] False j(2) show ?thesis by simp
  qed
qed

lemma splice1_middle: "splice1 (length pre) (pre @ m # post) = pre @ post"
  by (simp add: splice1_def)

lemma nth_middle': "(pre @ m # post) ! length pre = m"
  by simp

lemma ready_iff:
  "0 \<le> now \<Longrightarrow> ready now m \<longleftrightarrow> (nextRetryAt m = None \<or> (\<exists>t. nextRetryAt m = Some t \<and> t \<le> now))"
  by (auto simp: ready_def split: option.splits)

lemma not_ready_iff:
  "0 \<le> now \<Longrightarrow> \<not> ready now m \<longleftrightarrow> (\<exists>t. nextRetryAt m = Some t \<and> now < t)"
  by (auto simp: ready_def split: option.splits)

lemma dequeue_split:
  assumes "queues q sid = Some (pre @ m # post)" "ready now m" "list_all (\<lambda>x. \<not> ready now x) pre"
  shows "dequeue now sid q = (Some m, q\<lparr>queues := (queues q)(sid \<mapsto> pre @ post)\<rparr>)"
  using assms findIndex_first[of "ready now" pre m post]
  by (simp add: dequeue_def splice1_middle)

lemma dequeue_none:
  assumes "queues q sid = None \<or> (\<exists>queue. queues q sid = Some queue \<and> list_all (\<lambda>x. \<not> ready now x) queue)"
  shows "dequeue now sid q = (None, q)"
  using assms by (auto simp: dequeue_def findIndex_None_iff[symmetric])

lemma queue_cases:
  "list_all (\<lambda>x. \<not> P x) xs \<or> (\<exists>pre m post. xs = pre @ m # post \<and> P m \<and> list_all (\<lambda>x. \<not> P x) pre)"
proof (cases "findIndex P xs")
  case None
  then show ?thesis by (simp add: findIndex_None_iff)
next
  case (Some i)
  from findIndex_Some_split[OF Some] have "i < length xs" "P (xs ! i)" "list_all (\<lambda>x. \<not> P x) (take i xs)"
    by auto
  moreover from \<open>i < length xs\<close> have "xs = take i xs @ (xs ! i) # drop (Suc i) xs"
    by (simp add: id_take_nth_drop)
  ultimately show ?thesis by blast
qed

lemmas ex_defs = ex_queue_def ex_queued_def ex_message_def Message.extend_def QueuedMessage.fields_def
  QueuedMessage.extend_def DeadLetterMessage.fields_def

section \<open>Claims about the queue\<close>

text \<open>
  C7. \<open>dequeue(subId)\<close> returns and removes the first message of the subscriber's queue
  whose \<open>nextRetryAt\<close> is unset or at most \<open>now\<close>; the messages before and after it
  keep their order, and nothing else of the queue store changes. It returns nothing,
  and changes nothing, when the subscriber has no queue, when the queue is empty and
  when every queued message has its \<open>nextRetryAt\<close> in the future; and only then. The
  clock reading is taken to be non-negative, as \<open>Date.now()\<close> is.
\<close>

theorem dequeue_first_ready:
  assumes "0 \<le> now"
  shows "(queues q sid = Some (pre @ m # post)
            \<and> (nextRetryAt m = None \<or> (\<exists>t. nextRetryAt m = Some t \<and> t \<le> now))
            \<and> (\<forall>x\<in>set pre. \<exists>t. nextRetryAt x = Some t \<and> now < t)
          \<longrightarrow> dequeue now sid q = (Some m, q\<lparr>queues := (queues q)(sid \<mapsto> pre @ post)\<rparr>))
       \<and> (queues q sid = None
            \<or> (\<exists>queue. queues q sid = Some queue
                  \<and> (\<forall>x\<in>set queue. \<exists>t. nextRetryAt x = Some t \<and> now < t))
          \<longrightarrow> dequeue now sid q = (None, q))
       \<and> (fst (dequeue now sid q) = None
          \<longrightarrow> queues q sid = None
            \<or> (\<exists>queue. queues q sid = Some queue
                  \<and> (\<forall>x\<in>set queue. \<exists>t. nextRetryAt x = Some t \<and> now < t)))"
proof (intro conjI impI)
  assume h: "queues q sid = Some (pre @ m # post)
            \<and> (nextRetryAt m = None \<or> (\<exists>t. nextRetryAt m = Some t \<and> t \<le> now))
            \<and> (\<forall>x\<in>set pre. \<exists>t. nextRetryAt x = Some t \<and> now < t)"
  then have "ready now m" using ready_iff[OF assms] by blast
  moreover from h have "list_all (\<lambda>x. \<not> ready now x) pre"
    using not_ready_iff[OF assms] by (simp add: list_all_iff)
  ultimately show "dequeue now sid q = (Some m, q\<lparr>queues := (queues q)(sid \<mapsto> pre @ post)\<rparr>)"
    using h dequeue_split by blast
next
  assume "queues q sid = None
            \<or> (\<exists>queue. queues q sid = Some queue
                  \<and> (\<forall>x\<in>set queue. \<exists>t. nextRetryAt x = Some t \<and> now < t))"
  then have "queues q sid = None \<or> (\<exists>queue. queues q sid = Some queue \<and> list_all (\<lambda>x. \<not> ready now x) queue)"
    using not_ready_iff[OF assms] by (auto simp: list_all_iff)
  then show "dequeue now sid q = (None, q)" by (rule dequeue_none)
next
  assume n: "fst (dequeue now sid q) = None"
  show "queues q sid = None
            \<or> (\<exists>queue. queues q sid = Some queue
                  \<and> (\<forall>x\<in>set queue. \<exists>t. nextRetryAt x = Some t \<and> now < t))"
  proof (cases "queues q sid")
    case None
    then show ?thesis by simp
  next
    case (Some queue)
    have "list_all (\<lambda>x. \<not> ready now x) queue"
      using queue_cases[of "ready now" queue]
    proof
      assume "list_all (\<lambda>x. \<not> ready now x) queue" then show ?thesis .
    next
      assume "\<exists>pre m post. queue = pre @ m # post \<and> ready now m \<and> list_all (\<lambda>x. \<not> ready now x) pre"
      then obtain pre m post where "queue = pre @ m # post" "ready now m" "list_all (\<lambda>x. \<not> ready now x) pre"
        by blast
      with Some dequeue_split[of q sid pre m post now] n show ?thesis by simp
    qed
    with Some show ?thesis using not_ready_iff[OF assms] by (auto simp: list_all_iff)
  qed
qed

theorem dequeue_first_ready_witness:
  "dequeue 50 ''s'' ex_queue
     = (Some (ex_queued ''m2'' 0 3 None),
        ex_queue\<lparr>queues := (queues ex_queue)(''s'' \<mapsto>
           [ex_queued ''m1'' 1 3 (Some 100), ex_queued ''m3'' 0 3 None])\<rparr>)
   \<and> dequeue 50 ''nobody'' ex_queue = (None, ex_queue)"
proof -
  have n: "(0::int) \<le> 50" by simp
  show ?thesis
    using dequeue_first_ready[OF n, of ex_queue "''s''" "[ex_queued ''m1'' 1 3 (Some 100)]"
            "ex_queued ''m2'' 0 3 None" "[ex_queued ''m3'' 0 3 None]"]
          dequeue_first_ready[OF n, of ex_queue "''nobody''"]
    by (simp add: ex_defs)
qed

lemma id_not_in_queue:
  "(\<forall>x\<in>set queue. msg_id x \<noteq> messageId) \<Longrightarrow> findIndex (\<lambda>msg. msg_id msg = messageId) queue = None"
  by (simp add: findIndex_None_iff list_all_iff)

text \<open>
  C10. \<open>ack\<close> and \<open>nack\<close> return false when the subscriber has no queue or when no
  queued message of the subscriber has the given id, and then the queue store (every
  subscriber's queue and the dead-letter queue) is exactly what it was; the same holds
  for the broker's \<open>ack\<close> and \<open>nack\<close>, which leave the whole broker unchanged.
\<close>

theorem ack_nack_unknown_message_unchanged:
  assumes "queues (messageQueue b) sid = None
           \<or> (\<exists>queue. queues (messageQueue b) sid = Some queue
                 \<and> (\<forall>x\<in>set queue. msg_id x \<noteq> messageId))"
  shows "ack sid messageId (messageQueue b) = (False, messageQueue b)
       \<and> nack now sid messageId reason (messageQueue b) = (False, messageQueue b)
       \<and> broker_ack sid messageId b = (False, b)
       \<and> broker_nack now sid messageId reason b = (False, b)"
proof -
  have a: "ack sid messageId (messageQueue b) = (False, messageQueue b)"
    using assms by (auto simp: ack_def id_not_in_queue)
  have n: "nack now sid messageId reason (messageQueue b) = (False, messageQueue b)"
    using assms by (auto simp: nack_def id_not_in_queue)
  show ?thesis
    by (simp add: a n broker_ack_def broker_nack_def)
qed

theorem ack_nack_unknown_message_unchanged_witness:
  "broker_ack ''s'' ''m9'' ex_broker = (False, ex_broker)
   \<and> broker_nack 50 ''s'' ''m9'' ''boom'' ex_broker = (False, ex_broker)
   \<and> broker_ack ''nobody'' ''m1'' ex_broker = (False, ex_broker)
   \<and> broker_nack 50 ''nobody'' ''m1'' ''boom'' ex_broker = (False, ex_broker)"
  using ack_nack_unknown_message_unchanged[of ex_broker "''s''" "''m9''" 50 "''boom''"]
    ack_nack_unknown_message_unchanged[of ex_broker "''nobody''" "''m1''" 50 "''boom''"]
  by (simp add: ex_broker_def ex_defs)

lemma findIndex_id_first:
  assumes "msg_id m = messageId" "\<forall>x\<in>set pre. msg_id x \<noteq> messageId"
  shows "findIndex (\<lambda>msg. msg_id msg = messageId) (pre @ m # post) = Some (length pre)"
  using assms by (intro findIndex_first) (simp_all add: list_all_iff)

lemma nack_dlq:
  assumes "queues q sid = Some (pre @ m # post)" "msg_id m = messageId"
      "\<forall>x\<in>set pre. msg_id x \<noteq> messageId" "int (attempts m + 1) \<ge> maxRetries m"
  shows "nack now sid messageId reason q =
           (True, moveToDeadLetter now (m\<lparr>attempts := attempts m + 1\<rparr>) reason
                    (q\<lparr>queues := (queues q)(sid \<mapsto> pre @ post)\<rparr>))"
  using assms findIndex_id_first[of m messageId pre post]
  by (simp add: nack_def splice1_middle Let_def)

lemma nack_retry:
  assumes "queues q sid = Some (pre @ m # post)" "msg_id m = messageId"
      "\<forall>x\<in>set pre. msg_id x \<noteq> messageId" "int (attempts m + 1) < maxRetries m"
  shows "nack now sid messageId reason q =
           (True, q\<lparr>queues := (queues q)(sid \<mapsto>
                     pre @ m\<lparr>attempts := attempts m + 1,
                             nextRetryAt := Some (now + backoffMs (attempts m + 1))\<rparr> # post)\<rparr>)"
  using assms findIndex_id_first[of m messageId pre post]
  by (simp add: nack_def Let_def)

lemma moveToDeadLetter_queues: "queues (moveToDeadLetter now m reason q) = queues q"
  by (simp add: moveToDeadLetter_def Let_def)

lemma moveToDeadLetter_last:
  assumes "1 \<le> maxDeadLetterSize q"
  shows "deadLetterQueue (moveToDeadLetter now m reason q) \<noteq> []
       \<and> last (deadLetterQueue (moveToDeadLetter now m reason q))
           = QueuedMessage.extend m (DeadLetterMessage.fields reason now (topic m))"
proof (cases "deadLetterQueue q")
  case Nil
  with assms show ?thesis by (simp add: moveToDeadLetter_def Let_def)
next
  case (Cons d ds)
  then show ?thesis by (simp add: moveToDeadLetter_def Let_def)
qed

lemma nack_times_retry:
  assumes "queues q sid = Some (pre @ m # post)" "msg_id m = messageId"
      "\<forall>x\<in>set pre. msg_id x \<noteq> messageId" "ts \<noteq> []"
      "int (attempts m + length ts) < maxRetries m"
  shows "nack_times ts sid messageId reason q =
           q\<lparr>queues := (queues q)(sid \<mapsto>
                pre @ m\<lparr>attempts := attempts m + length ts,
                        nextRetryAt := Some (last ts + backoffMs (attempts m + length ts))\<rparr> # post)\<rparr>"
  using assms
proof (induction ts arbitrary: q m)
  case Nil
  then show ?case by simp
next
  case (Cons t ts)
  let ?m1 = "m\<lparr>attempts := attempts m + 1, nextRetryAt := Some (t + backoffMs (attempts m + 1))\<rparr>"
  let ?q1 = "q\<lparr>queues := (queues q)(sid \<mapsto> pre @ ?m1 # post)\<rparr>"
  from Cons.prems have lt: "int (attempts m + 1) < maxRetries m" by simp
  have step: "nack t sid messageId reason q = (True, ?q1)"
    using nack_retry[OF Cons.prems(1,2,3) lt] .
  have unfold: "nack_times (t # ts) sid messageId reason q = nack_times ts sid messageId reason ?q1"
    by (simp add: step)
  show ?case
  proof (cases "ts = []")
    case True
    have "nack_times (t # ts) sid messageId reason q = ?q1"
      unfolding unfold by (simp add: True)
    moreover have "last (t # ts) = t" "length (t # ts) = 1" by (simp_all add: True)
    ultimately show ?thesis by (simp only: add.commute[of _ 1])
  next
    case False
    have m1: "attempts ?m1 + length ts = attempts m + length (t # ts)" by simp
    have l: "last (t # ts) = last ts" using False by simp
    have "nack_times ts sid messageId reason ?q1 =
           ?q1\<lparr>queues := (queues ?q1)(sid \<mapsto>
                pre @ ?m1\<lparr>attempts := attempts ?m1 + length ts,
                        nextRetryAt := Some (last ts + backoffMs (attempts ?m1 + length ts))\<rparr> # post)\<rparr>"
      using Cons.prems False by (intro Cons.IH) simp_all
    also have "\<dots> = q\<lparr>queues := (queues q)(sid \<mapsto>
                pre @ m\<lparr>attempts := attempts m + length (t # ts),
                        nextRetryAt := Some (last (t # ts) + backoffMs (attempts m + length (t # ts)))\<rparr> # post)\<rparr>"
      unfolding m1 l by simp
    finally show ?thesis unfolding unfold .
  qed
qed

text \<open>
  C4. For the first message \<open>m\<close> of the subscriber's queue that has the given id,
  \<open>nack\<close> returns true and increments \<open>attempts\<close>. If the incremented counter has
  reached \<open>maxRetries\<close>, the message leaves the queue and, with the incremented counter,
  the reason and the time of failure, becomes the newest entry of the dead-letter queue
  (for a dead-letter capacity of at least one). Otherwise the message stays in place
  with \<open>nextRetryAt = now + min(1000 * 2^attempts, 60000)\<close> for the incremented
  counter. Hence after \<open>k \<ge> 1\<close> consecutive nacks of a message that started at 0
  attempts, with \<open>k < maxRetries\<close>, the message has \<open>k\<close> attempts and is scheduled
  \<open>min(1000 * 2^k, 60000)\<close> after the clock reading of the last nack.
\<close>

theorem nack_retry_or_dead_letter:
  assumes "queues q sid = Some (pre @ m # post)"
      and "msg_id m = messageId"
      and "\<forall>x\<in>set pre. msg_id x \<noteq> messageId"
  shows "fst (nack now sid messageId reason q)
       \<and> (maxRetries m \<le> int (attempts m + 1) \<longrightarrow>
            queues (snd (nack now sid messageId reason q)) = (queues q)(sid \<mapsto> pre @ post)
          \<and> (1 \<le> maxDeadLetterSize q \<longrightarrow>
               deadLetterQueue (snd (nack now sid messageId reason q)) \<noteq> []
             \<and> last (deadLetterQueue (snd (nack now sid messageId reason q)))
                 = QueuedMessage.extend (m\<lparr>attempts := attempts m + 1\<rparr>)
                     (DeadLetterMessage.fields reason now (topic m))))
       \<and> (int (attempts m + 1) < maxRetries m \<longrightarrow>
            snd (nack now sid messageId reason q)
              = q\<lparr>queues := (queues q)(sid \<mapsto>
                     pre @ m\<lparr>attempts := attempts m + 1,
                             nextRetryAt := Some (now + min (1000 * 2 ^ (attempts m + 1)) 60000)\<rparr>
                         # post)\<rparr>)
       \<and> (attempts m = 0 \<and> ts \<noteq> [] \<and> int (length ts) < maxRetries m \<longrightarrow>
            nack_times ts sid messageId reason q
              = q\<lparr>queues := (queues q)(sid \<mapsto>
                     pre @ m\<lparr>attempts := length ts,
                             nextRetryAt := Some (last ts + min (1000 * 2 ^ length ts) 60000)\<rparr>
                         # post)\<rparr>)"
proof (intro conjI impI)
  show "fst (nack now sid messageId reason q)"
    using nack_dlq[OF assms, of now reason] nack_retry[OF assms, of now reason]
    by (cases "maxRetries m \<le> int (attempts m + 1)") simp_all
next
  assume h: "maxRetries m \<le> int (attempts m + 1)"
  show "queues (snd (nack now sid messageId reason q)) = (queues q)(sid \<mapsto> pre @ post)"
    using nack_dlq[OF assms h, of now reason] by (simp add: moveToDeadLetter_queues)
next
  assume h: "maxRetries m \<le> int (attempts m + 1)" and d: "1 \<le> maxDeadLetterSize q"
  let ?q1 = "q\<lparr>queues := (queues q)(sid \<mapsto> pre @ post)\<rparr>"
  from d have d1: "1 \<le> maxDeadLetterSize ?q1" by simp
  show "deadLetterQueue (snd (nack now sid messageId reason q)) \<noteq> []"
    using nack_dlq[OF assms h, of now reason]
      moveToDeadLetter_last[OF d1, of now "m\<lparr>attempts := attempts m + 1\<rparr>" reason]
    by simp
  show "last (deadLetterQueue (snd (nack now sid messageId reason q)))
                 = QueuedMessage.extend (m\<lparr>attempts := attempts m + 1\<rparr>)
                     (DeadLetterMessage.fields reason now (topic m))"
    using nack_dlq[OF assms h, of now reason]
      moveToDeadLetter_last[OF d1, of now "m\<lparr>attempts := attempts m + 1\<rparr>" reason]
    by simp
next
  assume h: "int (attempts m + 1) < maxRetries m"
  show "snd (nack now sid messageId reason q)
              = q\<lparr>queues := (queues q)(sid \<mapsto>
                     pre @ m\<lparr>attempts := attempts m + 1,
                             nextRetryAt := Some (now + min (1000 * 2 ^ (attempts m + 1)) 60000)\<rparr>
                         # post)\<rparr>"
    using nack_retry[OF assms h, of now reason] by (simp add: backoffMs_def)
next
  assume h: "attempts m = 0 \<and> ts \<noteq> [] \<and> int (length ts) < maxRetries m"
  then have "int (attempts m + length ts) < maxRetries m" "ts \<noteq> []" by simp_all
  from nack_times_retry[OF assms this(2,1), of reason] h
  show "nack_times ts sid messageId reason q
              = q\<lparr>queues := (queues q)(sid \<mapsto>
                     pre @ m\<lparr>attempts := length ts,
                             nextRetryAt := Some (last ts + min (1000 * 2 ^ length ts) 60000)\<rparr>
                         # post)\<rparr>"
    by (simp add: backoffMs_def)
qed

theorem nack_retry_or_dead_letter_witness:
  "nack_times [10, 20] ''s'' ''m2'' ''boom'' ex_queue
     = ex_queue\<lparr>queues := (queues ex_queue)(''s'' \<mapsto>
          [ex_queued ''m1'' 1 3 (Some 100), ex_queued ''m2'' 2 3 (Some 4020),
           ex_queued ''m3'' 0 3 None])\<rparr>
   \<and> snd (nack 30 ''s'' ''m2'' ''boom'' ex_queue)
     = ex_queue\<lparr>queues := (queues ex_queue)(''s'' \<mapsto>
          [ex_queued ''m1'' 1 3 (Some 100), ex_queued ''m2'' 1 3 (Some 2030),
           ex_queued ''m3'' 0 3 None])\<rparr>
   \<and> fst (nack 30 ''s'' ''m2'' ''boom'' ex_queue)"
proof -
  have h1: "queues ex_queue ''s'' = Some ([ex_queued ''m1'' 1 3 (Some 100)]
              @ ex_queued ''m2'' 0 3 None # [ex_queued ''m3'' 0 3 None])"
    by (simp add: ex_queue_def)
  have h2: "msg_id (ex_queued ''m2'' 0 3 None) = ''m2''"
    by (simp add: ex_defs)
  have h3: "\<forall>x\<in>set [ex_queued ''m1'' 1 3 (Some 100)]. msg_id x \<noteq> ''m2''"
    by (simp add: ex_defs)
  show ?thesis
    using nack_retry_or_dead_letter[OF h1 h2 h3, of 30 "''boom''" "[10, 20]"]
    by (simp add: ex_defs numeral_2_eq_2)
qed

section \<open>Claims about the topic registry\<close>

lemma valid_topic_char_iff: "valid_topic_char c \<longleftrightarrow> c \<in> set allowed_topic_chars"
proof (cases c)
  case (Char b0 b1 b2 b3 b4 b5 b6 b7)
  show ?thesis
    unfolding Char valid_topic_char_def allowed_topic_chars_def Let_def
    by (cases b0; cases b1; cases b2; cases b3; cases b4; cases b5; cases b6; cases b7; simp)
qed

lemma valid_topic_name_iff:
  "valid_topic_name nm \<longleftrightarrow> nm \<noteq> [] \<and> set nm \<subseteq> set allowed_topic_chars"
  by (auto simp: valid_topic_name_def valid_topic_char_iff list_all_iff)

text \<open>
  C6 as stated fails for the empty name: it contains no character outside the allowed
  set and names no existing topic, yet \<open>createTopic\<close> rejects it, because the pattern
  asks for at least one character.
\<close>

theorem createTopic_empty_name_counterexample:
  "topics new_TopicManager [] = None
   \<and> set [] \<subseteq> set allowed_topic_chars
   \<and> createTopic 0 [] ''u'' no_overrides new_TopicManager = Inl InvalidName"
  by (simp add: createTopic_def new_TopicManager_def valid_topic_name_def)

text \<open>
  C6, amended. \<open>createTopic(name, creator, overrides)\<close> fails with AlreadyExists when
  a topic of that name exists; otherwise it fails with InvalidName when the name is
  empty or contains a character outside alphanumerics, \<open>.\<close>, \<open>-\<close>, \<open>_\<close>, \<open>*\<close>, \<open>#\<close>;
  otherwise it registers and returns a topic with zero counters, an empty history, an
  empty subscriber set, and the configuration \<open>maxQueueSize = 1000\<close>,
  \<open>messageRetention = 3600000\<close>, \<open>maxRetries = 3\<close>, \<open>retryDelay = 5000\<close>,
  \<open>requireAck = false\<close> overlaid with the overrides that are given.
\<close>

theorem createTopic_result:
  "(topics tm nm \<noteq> None \<longrightarrow> createTopic now nm creator cfg tm = Inl (AlreadyExists nm))
   \<and> (topics tm nm = None \<and> (nm = [] \<or> \<not> set nm \<subseteq> set allowed_topic_chars)
        \<longrightarrow> createTopic now nm creator cfg tm = Inl InvalidName)
   \<and> (topics tm nm = None \<and> nm \<noteq> [] \<and> set nm \<subseteq> set allowed_topic_chars
        \<longrightarrow> (\<exists>tp tm1. createTopic now nm creator cfg tm = Inr (tp, tm1)
              \<and> name tp = nm \<and> createdBy tp = creator \<and> createdAt tp = now
              \<and> messageCount tp = 0 \<and> subscriberCount tp = 0
              \<and> cfg_maxQueueSize (config tp)
                   = (case p_maxQueueSize cfg of None \<Rightarrow> 1000 | Some v \<Rightarrow> v)
              \<and> cfg_messageRetention (config tp)
                   = (case p_messageRetention cfg of None \<Rightarrow> 3600000 | Some v \<Rightarrow> v)
              \<and> cfg_maxRetries (config tp)
                   = (case p_maxRetries cfg of None \<Rightarrow> 3 | Some v \<Rightarrow> v)
              \<and> cfg_retryDelay (config tp)
                   = (case p_retryDelay cfg of None \<Rightarrow> 5000 | Some v \<Rightarrow> v)
              \<and> cfg_requireAck (config tp)
                   = (case p_requireAck cfg of None \<Rightarrow> False | Some v \<Rightarrow> v)
              \<and> topics tm1 = (topics tm)(nm \<mapsto> tp)
              \<and> messageHistory tm1 = (messageHistory tm)(nm \<mapsto> [])
              \<and> topicSubscribers tm1 = (topicSubscribers tm)(nm \<mapsto> [])))"
  by (simp add: createTopic_def valid_topic_name_iff overlay_def defaultConfig_def Let_def
        split: option.splits)

theorem createTopic_result_witness:
  "createTopic 5 ''t'' ''u'' no_overrides ex_topics = Inl (AlreadyExists ''t'')
   \<and> createTopic 5 ''a b'' ''u'' no_overrides ex_topics = Inl InvalidName
   \<and> (\<exists>tp tm1. createTopic 5 ''orders.created'' ''u'' (no_overrides\<lparr>p_maxQueueSize := Some 2\<rparr>) ex_topics
                   = Inr (tp, tm1)
        \<and> config tp = \<lparr>cfg_maxQueueSize = 2, cfg_messageRetention = 3600000, cfg_maxRetries = 3,
                         cfg_retryDelay = 5000, cfg_requireAck = False\<rparr>)"
proof -
  have a: "topics ex_topics ''t'' \<noteq> None" by (simp add: ex_topics_def)
  have b: "topics ex_topics ''a b'' = None \<and> (''a b'' = [] \<or> \<not> set ''a b'' \<subseteq> set allowed_topic_chars)"
    by (simp add: ex_topics_def allowed_topic_chars_def)
  have c: "topics ex_topics ''orders.created'' = None \<and> ''orders.created'' \<noteq> []
           \<and> set ''orders.created'' \<subseteq> set allowed_topic_chars"
    by (simp add: ex_topics_def allowed_topic_chars_def)
  from createTopic_result[of ex_topics "''t''" 5 "''u''" no_overrides] a
  have 1: "createTopic 5 ''t'' ''u'' no_overrides ex_topics = Inl (AlreadyExists ''t'')" by blast
  from createTopic_result[of ex_topics "''a b''" 5 "''u''" no_overrides] b
  have 2: "createTopic 5 ''a b'' ''u'' no_overrides ex_topics = Inl InvalidName" by blast
  from createTopic_result[of ex_topics "''orders.created''" 5 "''u''" "no_overrides\<lparr>p_maxQueueSize := Some 2\<rparr>"] c
  obtain tp tm1 where 3: "createTopic 5 ''orders.created'' ''u'' (no_overrides\<lparr>p_maxQueueSize := Some 2\<rparr>) ex_topics
                   = Inr (tp, tm1)"
    "cfg_maxQueueSize (config tp) = 2" "cfg_messageRetention (config tp) = 3600000"
    "cfg_maxRetries (config tp) = 3" "cfg_retryDelay (config tp) = 5000" "cfg_requireAck (config tp) = False"
    by (auto simp: no_overrides_def)
  have "config tp = \<lparr>cfg_maxQueueSize = 2, cfg_messageRetention = 3600000, cfg_maxRetries = 3,
                         cfg_retryDelay = 5000, cfg_requireAck = False\<rparr>"
    using 3(2-) by (cases "config tp") simp
  with 1 2 3(1) show ?thesis by blast
qed

lemma trim_retention_dropWhile:
  "trim_retention cutoff h = dropWhile (\<lambda>m. timestamp m < cutoff) h"
  by (induction h) simp_all

lemma trim_max_drop: "trim_max n h = drop (length h - n) h"
proof (induction n h rule: trim_max.induct)
  case (1 n h)
  show ?case
  proof (cases "length h > n")
    case True
    then obtain x xs where h: "h = x # xs" by (cases h) auto
    from True h have l: "length h - n = Suc (length xs - n)" by simp
    have "trim_max n h = trim_max n (tl h)"
      using True by (subst trim_max.simps) simp
    also have "\<dots> = drop (length (tl h) - n) (tl h)"
      using 1 True by simp
    also have "\<dots> = drop (length h - n) h"
      unfolding l by (simp add: h)
    finally show ?thesis .
  next
    case False
    then show ?thesis by (subst trim_max.simps) simp
  qed
qed

lemma length_trim_max: "length (trim_max n h) \<le> n"
  by (simp add: trim_max_drop)

lemma sorted_dropWhile_ge:
  "sorted (map timestamp h) \<Longrightarrow>
     \<forall>m\<in>set (dropWhile (\<lambda>m. timestamp m < cutoff) h). cutoff \<le> timestamp m"
proof (induction h)
  case Nil
  then show ?case by simp
next
  case (Cons x xs)
  then show ?case by (cases "timestamp x < cutoff") auto
qed

lemma recordMessage_history:
  assumes "topics tm (topic message) = Some tp"
  shows "messageHistory (recordMessage now message tm) (topic message)
           = Some (trim_max 1000 (trim_retention (now - cfg_messageRetention (config tp))
                     ((case messageHistory tm (topic message) of None \<Rightarrow> [] | Some h \<Rightarrow> h) @ [message])))"
  using assms by (simp add: recordMessage_def Let_def)

text \<open>
  C5 as stated fails when the history is not ordered by time: only the front of the
  history is compared with the cutoff. With retention 10 and a history holding a message
  of time 100, recording at time 100 a message stamped 0 keeps both, although the new
  one is older than the cutoff 90.
\<close>

theorem recordMessage_unordered_counterexample:
  "messageHistory (recordMessage 100 (ex_message ''m2'' ''t'' 0) ex_topics) ''t''
     = Some [ex_message ''m1'' ''t'' 100, ex_message ''m2'' ''t'' 0]
   \<and> timestamp (ex_message ''m2'' ''t'' 0)
       < 100 - cfg_messageRetention (config (the (topics ex_topics ''t'')))"
  by (simp add: recordMessage_def ex_topics_def ex_message_def Let_def defaultConfig_def
        trim_max_drop)

lemma recordMessage_existing_topic:
  assumes "topics tm (topic message) = Some tp"
      and "old = (case messageHistory tm (topic message) of None \<Rightarrow> [] | Some h \<Rightarrow> h)"
  shows "\<exists>h. messageHistory (recordMessage now message tm) (topic message) = Some h
           \<and> length h \<le> 1000
           \<and> h = (let kept = dropWhile (\<lambda>m. timestamp m < now - cfg_messageRetention (config tp))
                                (old @ [message])
                  in drop (length kept - 1000) kept)
           \<and> (sorted (map timestamp (old @ [message]))
                \<longrightarrow> (\<forall>m\<in>set h. now - cfg_messageRetention (config tp) \<le> timestamp m))
           \<and> topics (recordMessage now message tm)
               = (topics tm)(topic message \<mapsto> tp\<lparr>messageCount := messageCount tp + 1\<rparr>)
           \<and> (\<forall>other. other \<noteq> topic message
                \<longrightarrow> messageHistory (recordMessage now message tm) other = messageHistory tm other)"
proof -
  let ?cutoff = "now - cfg_messageRetention (config tp)"
  let ?kept = "dropWhile (\<lambda>m. timestamp m < ?cutoff) (old @ [message])"
  let ?h = "drop (length ?kept - 1000) ?kept"
  have h: "messageHistory (recordMessage now message tm) (topic message) = Some ?h"
    using recordMessage_history[OF assms(1), of now] assms(2)
    by (simp add: trim_retention_dropWhile trim_max_drop)
  have len: "length ?h \<le> 1000" by simp
  have fresh: "sorted (map timestamp (old @ [message])) \<longrightarrow> (\<forall>m\<in>set ?h. ?cutoff \<le> timestamp m)"
  proof
    assume "sorted (map timestamp (old @ [message]))"
    from sorted_dropWhile_ge[OF this, of ?cutoff]
    show "\<forall>m\<in>set ?h. ?cutoff \<le> timestamp m"
      by (meson in_set_dropD)
  qed
  have cnt: "topics (recordMessage now message tm)
               = (topics tm)(topic message \<mapsto> tp\<lparr>messageCount := messageCount tp + 1\<rparr>)"
    using assms(1) by (simp add: recordMessage_def Let_def)
  have frame: "\<forall>other. other \<noteq> topic message
                \<longrightarrow> messageHistory (recordMessage now message tm) other = messageHistory tm other"
    using assms(1) by (simp add: recordMessage_def Let_def)
  from h len fresh cnt frame show ?thesis by (simp add: Let_def)
qed

text \<open>
  C5, amended. For an existing topic, \<open>recordMessage\<close> increments the topic's
  message counter, appends the message, drops messages from the front while the front
  is older than \<open>now - messageRetention\<close>, then drops from the front down to 1000
  messages, and touches no other topic's history. The resulting history has at most
  1000 messages; and when the history with the new message appended is in
  non-decreasing order of timestamps (as it is when messages are stamped and recorded
  by \<open>publish\<close> under a clock that does not go backwards), it holds no message older
  than \<open>now - messageRetention\<close>.
\<close>

theorem recordMessage_trims_history:
  "(topics tm (topic message) = None \<longrightarrow> recordMessage now message tm = tm)
   \<and> (topics tm (topic message) = Some tp
      \<longrightarrow> (\<exists>h. messageHistory (recordMessage now message tm) (topic message) = Some h
             \<and> length h \<le> 1000
             \<and> h = (let kept = dropWhile
                                  (\<lambda>m. timestamp m < now - cfg_messageRetention (config tp))
                                  (topic_history tm (topic message) @ [message])
                      in drop (length kept - 1000) kept)
             \<and> (sorted (map timestamp (topic_history tm (topic message) @ [message]))
                  \<longrightarrow> (\<forall>m\<in>set h. now - cfg_messageRetention (config tp) \<le> timestamp m))
             \<and> topics (recordMessage now message tm)
                 = (topics tm)(topic message \<mapsto> tp\<lparr>messageCount := messageCount tp + 1\<rparr>)
             \<and> (\<forall>other. other \<noteq> topic message
                  \<longrightarrow> messageHistory (recordMessage now message tm) other
                      = messageHistory tm other)))"
proof (intro conjI impI)
  assume "topics tm (topic message) = None"
  then show "recordMessage now message tm = tm" by (simp add: recordMessage_def)
next
  assume t: "topics tm (topic message) = Some tp"
  have o: "topic_history tm (topic message)
             = (case messageHistory tm (topic message) of None \<Rightarrow> [] | Some h \<Rightarrow> h)"
    by (simp add: topic_history_def)
  from recordMessage_existing_topic[OF t o, of now]
  show "\<exists>h. messageHistory (recordMessage now message tm) (topic message) = Some h
             \<and> length h \<le> 1000
             \<and> h = (let kept = dropWhile
                                  (\<lambda>m. timestamp m < now - cfg_messageRetention (config tp))
                                  (topic_history tm (topic message) @ [message])
                      in drop (length kept - 1000) kept)
             \<and> (sorted (map timestamp (topic_history tm (topic message) @ [message]))
                  \<longrightarrow> (\<forall>m\<in>set h. now - cfg_messageRetention (config tp) \<le> timestamp m))
             \<and> topics (recordMessage now message tm)
                 = (topics tm)(topic message \<mapsto> tp\<lparr>messageCount := messageCount tp + 1\<rparr>)
             \<and> (\<forall>other. other \<noteq> topic message
                  \<longrightarrow> messageHistory (recordMessage now message tm) other
                      = messageHistory tm other)" .
qed

theorem recordMessage_trims_history_witness:
  "messageHistory (recordMessage 115 (ex_message ''m2'' ''t'' 115) ex_topics) ''t''
     = Some [ex_message ''m2'' ''t'' 115]
   \<and> messageHistory (recordMessage 105 (ex_message ''m2'' ''t'' 105) ex_topics) ''t''
     = Some [ex_message ''m1'' ''t'' 100, ex_message ''m2'' ''t'' 105]
   \<and> recordMessage 105 (ex_message ''m2'' ''nowhere'' 105) ex_topics = ex_topics"
proof -
  let ?tp = "\<lparr>name = ''t'', createdAt = 0, createdBy = ''u'', messageCount = 1,
              subscriberCount = 0, config = defaultConfig\<lparr>cfg_messageRetention := 10\<rparr>\<rparr>"
  have t: "topics ex_topics (topic (ex_message ''m2'' ''t'' 115)) = Some ?tp"
    by (simp add: ex_topics_def ex_message_def)
  have t2: "topics ex_topics (topic (ex_message ''m2'' ''t'' 105)) = Some ?tp"
    by (simp add: ex_topics_def ex_message_def)
  have t3: "topics ex_topics (topic (ex_message ''m2'' ''nowhere'' 105)) = None"
    by (simp add: ex_topics_def ex_message_def)
  have 1: "messageHistory (recordMessage 115 (ex_message ''m2'' ''t'' 115) ex_topics) ''t''
             = Some [ex_message ''m2'' ''t'' 115]"
    using recordMessage_trims_history[where tm = ex_topics and now = 115
            and message = "ex_message ''m2'' ''t'' 115" and tp = ?tp,
            THEN conjunct2, rule_format, OF t]
    by (auto simp: ex_message_def ex_topics_def topic_history_def Let_def)
  have 2: "messageHistory (recordMessage 105 (ex_message ''m2'' ''t'' 105) ex_topics) ''t''
             = Some [ex_message ''m1'' ''t'' 100, ex_message ''m2'' ''t'' 105]"
    using recordMessage_trims_history[where tm = ex_topics and now = 105
            and message = "ex_message ''m2'' ''t'' 105" and tp = ?tp,
            THEN conjunct2, rule_format, OF t2]
    by (auto simp: ex_message_def ex_topics_def topic_history_def Let_def)
  have 3: "recordMessage 105 (ex_message ''m2'' ''nowhere'' 105) ex_topics = ex_topics"
    by (rule recordMessage_trims_history[where tm = ex_topics and now = 105
            and message = "ex_message ''m2'' ''nowhere'' 105",
            THEN conjunct1, rule_format, OF t3])
  from 1 2 3 show ?thesis by simp
qed

section \<open>Claims about consumer groups\<close>

lemma assignPartitions_flags:
  "map isLeader (assignPartitions p r i k ms) = map isLeader ms"
  by (induction ms arbitrary: i k) (simp_all add: Let_def)

lemma assignPartitions_ids:
  "map m_subscriberId (assignPartitions p r i k ms) = map m_subscriberId ms"
  by (induction ms arbitrary: i k) (simp_all add: Let_def)

lemma count_by_flags:
  "length (filter isLeader ms) = length (filter (\<lambda>b. b) (map isLeader ms))"
  by (simp add: filter_map comp_def)

lemma leaders_assignPartitions:
  "length (filter isLeader (assignPartitions p r i k ms)) = length (filter isLeader ms)"
  by (simp add: count_by_flags assignPartitions_flags)

lemma count_splice1:
  "i < length xs \<Longrightarrow>
     length (filter P (splice1 i xs)) = length (filter P xs) - (if P (xs ! i) then 1 else 0)"
proof -
  assume i: "i < length xs"
  then have xs: "xs = take i xs @ (xs ! i) # drop (Suc i) xs"
    by (simp add: id_take_nth_drop)
  have "length (filter P xs) = length (filter P (take i xs @ (xs ! i) # drop (Suc i) xs))"
    using xs by simp
  then show ?thesis by (simp add: splice1_def)
qed

lemma rebalance_groups:
  "groups (rebalance g mgr) h = Some grp1 \<Longrightarrow>
     \<exists>grp. groups mgr h = Some grp
        \<and> length (leaders grp1) = length (leaders grp)
        \<and> map isLeader (members grp1) = map isLeader (members grp)
        \<and> map m_subscriberId (members grp1) = map m_subscriberId (members grp)"
  by (auto simp: rebalance_def Let_def leaders_def leaders_assignPartitions
        assignPartitions_flags assignPartitions_ids split: option.splits if_splits)

lemma createGroup_leaders:
  assumes "\<forall>g grp. groups mgr g = Some grp \<longrightarrow> length (leaders grp) \<le> 1"
      and "createGroup now nm tpc strat mgr = Inr (grp0, mgr1)"
  shows "\<forall>g grp. groups mgr1 g = Some grp \<longrightarrow> length (leaders grp) \<le> 1"
  using assms by (auto simp: createGroup_def Let_def leaders_def split: if_splits)

lemma joinGroup_leaders:
  assumes inv: "\<forall>g grp. groups mgr g = Some grp \<longrightarrow> length (leaders grp) \<le> 1"
      and j: "joinGroup now gn sid cid mgr = Inr (m, mgr1)"
  shows "\<forall>g grp. groups mgr1 g = Some grp \<longrightarrow> length (leaders grp) \<le> 1"
proof (intro allI impI)
  fix g grp1 assume g1: "groups mgr1 g = Some grp1"
  from j obtain grp where grp: "groups mgr gn = Some grp"
    by (auto simp: joinGroup_def split: option.splits)
  from inv grp have le: "length (leaders grp) \<le> 1" by blast
  show "length (leaders grp1) \<le> 1"
  proof (cases "findIndex (\<lambda>m. m_subscriberId m = sid) (members grp)")
    case (Some i)
    then have i: "i < length (members grp)" using findIndex_Some_split by blast
    from j grp Some have mgr1: "mgr1 = mgr\<lparr>groups := (groups mgr)(gn \<mapsto>
            grp\<lparr>members := (members grp)[i := (members grp ! i)\<lparr>lastHeartbeat := now\<rparr>]\<rparr>)\<rparr>"
      by (auto simp: joinGroup_def Let_def)
    have fl: "map isLeader ((members grp)[i := (members grp ! i)\<lparr>lastHeartbeat := now\<rparr>])
                = map isLeader (members grp)"
      using i by (simp add: map_update list_update_same_conv)
    show ?thesis
    proof (cases "g = gn")
      case True
      with g1 mgr1 have "members grp1 = (members grp)[i := (members grp ! i)\<lparr>lastHeartbeat := now\<rparr>]"
        by auto
      with le fl show ?thesis by (simp add: leaders_def count_by_flags)
    next
      case False
      with g1 mgr1 inv show ?thesis by auto
    qed
  next
    case None
    let ?member = "\<lparr>m_subscriberId = sid, m_clientId = cid, joinedAt = now,
                              lastHeartbeat = now, assignedPartitions = [],
                              messagesProcessed = 0,
                              isLeader = (length (members grp) = 0)\<rparr>"
    let ?mid = "mgr\<lparr>groups := (groups mgr)(gn \<mapsto> grp\<lparr>members := members grp @ [?member]\<rparr>),
                               memberToGroup := (memberToGroup mgr)(sid \<mapsto> gn)\<rparr>"
    from j grp None have mgr1: "mgr1 = rebalance gn ?mid"
      by (simp add: joinGroup_def Let_def)
    from rebalance_groups[of gn ?mid g grp1] g1 mgr1
    obtain grp2 where grp2: "groups ?mid g = Some grp2" "length (leaders grp1) = length (leaders grp2)"
      by auto
    show ?thesis
    proof (cases "g = gn")
      case True
      with grp2 have ms: "members grp2 = members grp @ [?member]" by auto
      have "length (filter isLeader (members grp @ [?member]))
              = length (filter isLeader (members grp)) + (if members grp = [] then 1 else 0)"
        by simp
      moreover have "members grp = [] \<Longrightarrow> length (filter isLeader (members grp)) = 0"
        by simp
      ultimately have "length (filter isLeader (members grp @ [?member])) \<le> 1"
        using le by (cases "members grp = []") (simp_all add: leaders_def)
      with ms grp2(2) show ?thesis by (simp only: leaders_def)
    next
      case False
      with grp2 inv show ?thesis by auto
    qed
  qed
qed

lemma leaveGroup_leaders:
  assumes inv: "\<forall>g grp. groups mgr g = Some grp \<longrightarrow> length (leaders grp) \<le> 1"
  shows "\<forall>g grp. groups (leaveGroup sid mgr) g = Some grp \<longrightarrow> length (leaders grp) \<le> 1"
proof (intro allI impI)
  fix g grp1 assume g1: "groups (leaveGroup sid mgr) g = Some grp1"
  show "length (leaders grp1) \<le> 1"
  proof (cases "memberToGroup mgr sid")
    case None
    with g1 inv show ?thesis by (simp add: leaveGroup_def)
  next
    case (Some gn)
    show ?thesis
    proof (cases "groups mgr gn")
      case None
      with Some g1 inv show ?thesis by (simp add: leaveGroup_def)
    next
      case grp: (Some grp)
      from inv grp have le: "length (leaders grp) \<le> 1" by blast
      show ?thesis
      proof (cases "findIndex (\<lambda>m. m_subscriberId m = sid) (members grp)")
        case None
        with Some grp g1 inv show ?thesis by (simp add: leaveGroup_def)
      next
        case idx: (Some i)
        then have i: "i < length (members grp)" using findIndex_Some_split by blast
        let ?ms1 = "splice1 i (members grp)"
        let ?ms2 = "(if isLeader (members grp ! i) \<and> length ?ms1 > 0 then
                                  (case ?ms1 of
                                     [] \<Rightarrow> ?ms1
                                   | m # rest \<Rightarrow> m\<lparr>isLeader := True\<rparr> # rest)
                                else ?ms1)"
        let ?mid = "mgr\<lparr>groups := (groups mgr)(gn \<mapsto> grp\<lparr>members := ?ms2\<rparr>),
                                    memberToGroup := (memberToGroup mgr)(sid := None)\<rparr>"
        from Some grp idx have l: "leaveGroup sid mgr = rebalance gn ?mid"
          by (simp add: leaveGroup_def Let_def)
        from rebalance_groups[of gn ?mid g grp1] g1 l
        obtain grp2 where grp2: "groups ?mid g = Some grp2" "length (leaders grp1) = length (leaders grp2)"
          by auto
        have c1: "length (filter isLeader ?ms1)
                    = length (filter isLeader (members grp)) - (if isLeader (members grp ! i) then 1 else 0)"
          using count_splice1[OF i] .
        have c2: "length (filter isLeader ?ms2) \<le> 1"
        proof (cases "isLeader (members grp ! i)")
          case True
          with c1 le have z: "length (filter isLeader ?ms1) = 0" by (simp add: leaders_def)
          show ?thesis
          proof (cases ?ms1)
            case Nil
            then show ?thesis by simp
          next
            case (Cons m rest)
            with z have "length (filter isLeader rest) = 0" by (simp split: if_splits)
            with True Cons show ?thesis by simp
          qed
        next
          case False
          with c1 le show ?thesis by (simp add: leaders_def)
        qed
        show ?thesis
        proof (cases "g = gn")
          case True
          with grp2 have "members grp2 = ?ms2" by auto
          with c2 grp2(2) show ?thesis by (simp add: leaders_def)
        next
          case False
          with grp2 inv show ?thesis by auto
        qed
      qed
    qed
  qed
qed

lemma apply_group_op_leaders:
  assumes "\<forall>g grp. groups mgr g = Some grp \<longrightarrow> length (leaders grp) \<le> 1"
  shows "\<forall>g grp. groups (apply_group_op opn mgr) g = Some grp \<longrightarrow> length (leaders grp) \<le> 1"
proof (cases opn)
  case (CreateGroup now nm tpc strat)
  then show ?thesis
    using assms createGroup_leaders[OF assms]
    by (cases "createGroup now nm tpc strat mgr") (auto simp del: split_paired_All)
next
  case (JoinGroup now gn sid cid)
  then show ?thesis
    using assms joinGroup_leaders[OF assms]
    by (cases "joinGroup now gn sid cid mgr") (auto simp del: split_paired_All)
next
  case (LeaveGroup sid)
  then show ?thesis using leaveGroup_leaders[OF assms] by simp
qed

lemma run_group_ops_leaders:
  assumes "\<forall>g grp. groups mgr g = Some grp \<longrightarrow> length (leaders grp) \<le> 1"
  shows "\<forall>g grp. groups (run_group_ops ops mgr) g = Some grp \<longrightarrow> length (leaders grp) \<le> 1"
  using assms unfolding run_group_ops_def
proof (induction ops arbitrary: mgr)
  case Nil
  then show ?case by simp
next
  case (Cons opn ops)
  from apply_group_op_leaders[OF Cons.prems] have "\<forall>g grp. groups (apply_group_op opn mgr) g = Some grp \<longrightarrow> length (leaders grp) \<le> 1" .
  from Cons.IH[OF this] show ?case by simp
qed

lemma joinGroup_first:
  assumes "groups mgr gn = Some grp" "members grp = []"
  shows "\<exists>m mgr1 grp1. joinGroup now gn sid cid mgr = Inr (m, mgr1) \<and> isLeader m
           \<and> m_subscriberId m = sid \<and> groups mgr1 gn = Some grp1 \<and> members grp1 = [m]"
  using assms by (simp add: joinGroup_def rebalance_def Let_def)

lemma leaveGroup_leader:
  assumes mg: "memberToGroup mgr sid = Some gn" and grp: "groups mgr gn = Some grp"
      and ms: "members grp = pre @ m # post" and m: "m_subscriberId m = sid"
      and pre: "\<forall>x\<in>set pre. m_subscriberId x \<noteq> sid" and lead: "isLeader m"
      and ne: "pre @ post \<noteq> []"
  shows "\<exists>grp1. groups (leaveGroup sid mgr) gn = Some grp1
           \<and> map m_subscriberId (members grp1) = map m_subscriberId (pre @ post)
           \<and> isLeader (hd (members grp1))
           \<and> memberToGroup (leaveGroup sid mgr) sid = None"
proof -
  have idx: "findIndex (\<lambda>m. m_subscriberId m = sid) (members grp) = Some (length pre)"
    unfolding ms using m pre by (intro findIndex_first) (simp_all add: list_all_iff)
  obtain x xs where x: "pre @ post = x # xs" using ne by (cases "pre @ post") auto
  let ?ms2 = "x\<lparr>isLeader := True\<rparr> # xs"
  let ?mid = "mgr\<lparr>groups := (groups mgr)(gn \<mapsto> grp\<lparr>members := ?ms2\<rparr>),
                   memberToGroup := (memberToGroup mgr)(sid := None)\<rparr>"
  have l: "leaveGroup sid mgr = rebalance gn ?mid"
    using mg grp idx lead x by (simp add: leaveGroup_def Let_def ms splice1_middle)
  have r: "rebalance gn ?mid = ?mid\<lparr>groups := (groups ?mid)(gn \<mapsto>
             grp\<lparr>members := assignPartitions (16 div length ?ms2) (16 mod length ?ms2) 0 0 ?ms2\<rparr>)\<rparr>"
    by (simp add: rebalance_def Let_def)
  let ?ms3 = "assignPartitions (16 div length ?ms2) (16 mod length ?ms2) 0 0 ?ms2"
  have ids: "map m_subscriberId ?ms3 = map m_subscriberId (pre @ post)"
    unfolding assignPartitions_ids x by simp
  have "map isLeader ?ms3 = map isLeader ?ms2" by (rule assignPartitions_flags)
  then have hd: "isLeader (hd ?ms3)" by (simp add: Let_def)
  show ?thesis
    unfolding l r using ids hd by simp
qed

text \<open>
  C9. After any sequence of \<open>createGroup\<close>, \<open>joinGroup\<close> and \<open>leaveGroup\<close> operations,
  from the empty manager or from any manager in which every group has at most one
  leader, every group has at most one member with the leader flag set. The member that
  joins an empty group becomes its leader; and when the leader leaves and members
  remain, the member that is then first in the list has the leader flag.
\<close>

theorem consumer_group_single_leader:
  "((\<forall>g grp. groups mgr g = Some grp \<longrightarrow> length (leaders grp) \<le> 1)
      \<longrightarrow> (\<forall>g grp. groups (run_group_ops ops mgr) g = Some grp \<longrightarrow> length (leaders grp) \<le> 1))
   \<and> (\<forall>g grp. groups (run_group_ops ops new_ConsumerGroupManager) g = Some grp
          \<longrightarrow> length (leaders grp) \<le> 1)
   \<and> (groups mgr gn = Some grp0 \<and> members grp0 = []
        \<longrightarrow> (\<exists>m mgr1 grp1. joinGroup now gn sid cid mgr = Inr (m, mgr1) \<and> isLeader m
               \<and> m_subscriberId m = sid \<and> groups mgr1 gn = Some grp1 \<and> members grp1 = [m]))
   \<and> (memberToGroup mgr sid = Some gn \<and> groups mgr gn = Some grp0
        \<and> members grp0 = pre @ m # post \<and> m_subscriberId m = sid
        \<and> (\<forall>x\<in>set pre. m_subscriberId x \<noteq> sid) \<and> isLeader m \<and> pre @ post \<noteq> []
        \<longrightarrow> (\<exists>grp1. groups (leaveGroup sid mgr) gn = Some grp1
               \<and> map m_subscriberId (members grp1) = map m_subscriberId (pre @ post)
               \<and> isLeader (hd (members grp1))
               \<and> memberToGroup (leaveGroup sid mgr) sid = None))"
proof (intro conjI)
  show "(\<forall>g grp. groups mgr g = Some grp \<longrightarrow> length (leaders grp) \<le> 1)
      \<longrightarrow> (\<forall>g grp. groups (run_group_ops ops mgr) g = Some grp \<longrightarrow> length (leaders grp) \<le> 1)"
    using run_group_ops_leaders by blast
  have "\<forall>g grp. groups new_ConsumerGroupManager g = Some grp \<longrightarrow> length (leaders grp) \<le> 1"
    by (simp add: new_ConsumerGroupManager_def)
  then show "\<forall>g grp. groups (run_group_ops ops new_ConsumerGroupManager) g = Some grp
          \<longrightarrow> length (leaders grp) \<le> 1"
    by (rule run_group_ops_leaders)
  show "groups mgr gn = Some grp0 \<and> members grp0 = []
        \<longrightarrow> (\<exists>m mgr1 grp1. joinGroup now gn sid cid mgr = Inr (m, mgr1) \<and> isLeader m
               \<and> m_subscriberId m = sid \<and> groups mgr1 gn = Some grp1 \<and> members grp1 = [m])"
    using joinGroup_first by blast
  show "memberToGroup mgr sid = Some gn \<and> groups mgr gn = Some grp0
        \<and> members grp0 = pre @ m # post \<and> m_subscriberId m = sid
        \<and> (\<forall>x\<in>set pre. m_subscriberId x \<noteq> sid) \<and> isLeader m \<and> pre @ post \<noteq> []
        \<longrightarrow> (\<exists>grp1. groups (leaveGroup sid mgr) gn = Some grp1
               \<and> map m_subscriberId (members grp1) = map m_subscriberId (pre @ post)
               \<and> isLeader (hd (members grp1))
               \<and> memberToGroup (leaveGroup sid mgr) sid = None)"
    using leaveGroup_leader by blast
qed

lemma ex_group_ops_run:
  "\<exists>grp. groups (run_group_ops ex_group_ops new_ConsumerGroupManager) ''g'' = Some grp
      \<and> map m_subscriberId (members grp) = [''s2'', ''s3'']
      \<and> map isLeader (members grp) = [True, False]"
  by (simp add: ex_group_ops_def run_group_ops_def new_ConsumerGroupManager_def createGroup_def
        joinGroup_def leaveGroup_def rebalance_def splice1_def Let_def)

theorem consumer_group_single_leader_witness:
  "\<exists>grp. groups (run_group_ops ex_group_ops new_ConsumerGroupManager) ''g'' = Some grp
      \<and> map m_subscriberId (members grp) = [''s2'', ''s3'']
      \<and> map isLeader (members grp) = [True, False]
      \<and> length (leaders grp) \<le> 1"
proof -
  from ex_group_ops_run obtain grp where
    g: "groups (run_group_ops ex_group_ops new_ConsumerGroupManager) ''g'' = Some grp"
       "map m_subscriberId (members grp) = [''s2'', ''s3'']"
       "map isLeader (members grp) = [True, False]"
    by (elim exE conjE)
  have "\<forall>g grp. groups (run_group_ops ex_group_ops new_ConsumerGroupManager) g = Some grp
          \<longrightarrow> length (leaders grp) \<le> 1"
    by (rule consumer_group_single_leader[of new_ConsumerGroupManager ex_group_ops,
               THEN conjunct2, THEN conjunct1])
  with g(1) have "length (leaders grp) \<le> 1" by simp
  with g show ?thesis by (intro exI conjI)
qed

section \<open>Claims about routing\<close>

lemma drainLoop_nothing_ready:
  "fst (dequeue now sid (messageQueue b)) = None \<Longrightarrow> drainLoop now sid b = Some b"
  by (subst drainLoop.simps) (auto split: prod.splits)

lemma dequeue_absent: "queues q sid = None \<Longrightarrow> dequeue now sid q = (None, q)"
  by (simp add: dequeue_def)

lemmas broker_defs = broker_createTopic_def createTopic_def new_MessageBroker_def new_TopicManager_def
  new_MessageQueue_def subscribe_def drainQueue_def setSubscriberOnline_def publish_def
  routeMessage_def routeOne_def queueMessage_def deliverMessage_def enqueue_def trackPublisher_def
  recordMessage_def getSubscribers_def getTopic_def hasTopic_def addSubscriber_def
  new_Set_def set_add_def getQueueDepth_def overlay_def defaultConfig_def no_overrides_def
  no_options_def valid_topic_name_def valid_topic_char_def moveToDeadLetter_def matchesFilter_def
  trim_max_drop Message.extend_def QueuedMessage.fields_def QueuedMessage.extend_def
  DeadLetterMessage.fields_def Message.truncate_def ex_request_def

lemma queueMessage_frame:
  "topicManager (queueMessage now x m c b) = topicManager b"
  "messageCallbacks (queueMessage now x m c b) = messageCallbacks b"
  "sink_log (queueMessage now x m c b) = sink_log b"
  "map_option isOnline (subscribers (queueMessage now x m c b) y) = map_option isOnline (subscribers b y)"
  "map_option sub_filter (subscribers (queueMessage now x m c b) y) = map_option sub_filter (subscribers b y)"
  by (simp_all add: queueMessage_def Let_def split: option.splits)

lemma deliverMessage_frame:
  "topicManager (deliverMessage now x m c b) = topicManager b"
  "messageCallbacks (deliverMessage now x m c b) = messageCallbacks b"
  "map_option isOnline (subscribers (deliverMessage now x m c b) y) = map_option isOnline (subscribers b y)"
  "map_option sub_filter (subscribers (deliverMessage now x m c b) y) = map_option sub_filter (subscribers b y)"
  by (simp_all add: deliverMessage_def Let_def queueMessage_frame split: option.splits)

lemma deliverMessage_log:
  "sink_log (deliverMessage now x m c b)
     = sink_log b @ (if messageCallbacks b x \<noteq> None then [(x, m)] else [])"
  by (simp add: deliverMessage_def Let_def queueMessage_frame split: option.splits)

lemma routeOne_frame:
  "topicManager (routeOne now m x b) = topicManager b"
  "messageCallbacks (routeOne now m x b) = messageCallbacks b"
  "map_option isOnline (subscribers (routeOne now m x b) y) = map_option isOnline (subscribers b y)"
  "map_option sub_filter (subscribers (routeOne now m x b) y) = map_option sub_filter (subscribers b y)"
  by (simp_all add: routeOne_def deliverMessage_frame queueMessage_frame split: option.splits)

lemma routeOne_log:
  "sink_log (routeOne now m x b) = sink_log b @ (if delivers b m x then [(x, m)] else [])"
  by (auto simp: routeOne_def delivers_def deliverMessage_log queueMessage_frame matchesFilter_def
        split: option.splits)

lemma delivers_routeOne: "delivers (routeOne now m x b) m' = delivers b m'"
  by (rule ext) (simp add: delivers_def routeOne_frame)

lemma routeLoop_frame:
  "topicManager (routeLoop now m ids b) = topicManager b"
  "messageCallbacks (routeLoop now m ids b) = messageCallbacks b"
  "map_option isOnline (subscribers (routeLoop now m ids b) y) = map_option isOnline (subscribers b y)"
  "map_option sub_filter (subscribers (routeLoop now m ids b) y) = map_option sub_filter (subscribers b y)"
  by (induction ids arbitrary: b; simp add: routeOne_frame)+

lemma routeLoop_log:
  "sink_log (routeLoop now m ids b)
     = sink_log b @ map (\<lambda>x. (x, m)) (filter (delivers b m) ids)"
proof (induction ids arbitrary: b)
  case Nil
  then show ?case by simp
next
  case (Cons x ids)
  have "filter (delivers (routeOne now m x b) m) ids = filter (delivers b m) ids"
    by (simp add: delivers_routeOne)
  with Cons[of "routeOne now m x b"] show ?case by (simp add: routeOne_log)
qed

lemma set_add_props: "distinct s \<Longrightarrow> distinct (set_add s x) \<and> set (set_add s x) = insert x (set s)"
  by (auto simp: set_add_def)

lemma foldl_set_add: "distinct s \<Longrightarrow> distinct (foldl set_add s xs) \<and> set (foldl set_add s xs) = set s \<union> set xs"
proof (induction xs arbitrary: s)
  case Nil
  then show ?case by simp
next
  case (Cons x xs)
  from set_add_props[OF Cons.prems, of x] Cons.IH[of "set_add s x"] show ?case by auto
qed

lemma new_Set_props: "distinct (new_Set xs) \<and> set (new_Set xs) = set xs"
  using foldl_set_add[of "[]" xs] by (simp add: new_Set_def)

lemma filter_one_distinct:
  "distinct ids \<Longrightarrow> x \<in> set ids \<Longrightarrow> filter (\<lambda>e. fst e = x) (map (\<lambda>y. (y, m)) (filter P ids))
     = (if P x then [(x, m)] else [])"
proof (induction ids)
  case Nil
  then show ?case by simp
next
  case (Cons a ids)
  have none: "x \<notin> set ids \<Longrightarrow> filter (\<lambda>e. fst e = x) (map (\<lambda>y. (y, m)) (filter P ids)) = []"
    by (induction ids) auto
  show ?case
  proof (cases "a = x")
    case True
    with Cons.prems have "x \<notin> set ids" by simp
    with none True show ?thesis by simp
  next
    case False
    with Cons show ?thesis by simp
  qed
qed

lemma wildcard_online_delivers: "wildcard_online sid b \<Longrightarrow> delivers b m sid"
  by (auto simp: wildcard_online_def delivers_def split: option.splits)

lemma wildcard_online_cong:
  assumes "topicManager b1 = topicManager b" "messageCallbacks b1 = messageCallbacks b"
    "map_option isOnline (subscribers b1 sid) = map_option isOnline (subscribers b sid)"
    "map_option sub_filter (subscribers b1 sid) = map_option sub_filter (subscribers b sid)"
  shows "wildcard_online sid b1 = wildcard_online sid b"
  using assms by (auto simp: wildcard_online_def split: option.splits)

lemma routeMessage_wildcard:
  assumes "wildcard_online sid b"
  shows "sink_calls sid (routeMessage now m b) = sink_calls sid b @ [m]
       \<and> wildcard_online sid (routeMessage now m b)"
proof -
  let ?ids = "new_Set (getSubscribers (topicManager b) (topic m) @ getSubscribers (topicManager b) ''#'')"
  have d: "distinct ?ids" and s: "sid \<in> set ?ids"
    using new_Set_props[of "getSubscribers (topicManager b) (topic m) @ getSubscribers (topicManager b) ''#''"]
      assms by (auto simp: wildcard_online_def)
  have "sink_calls sid (routeMessage now m b) = sink_calls sid b @ [m]"
    using filter_one_distinct[OF d s, of m "delivers b m"] wildcard_online_delivers[OF assms, of m]
    by (simp add: routeMessage_def Let_def sink_calls_def routeLoop_log)
  moreover have "wildcard_online sid (routeMessage now m b)"
    using assms wildcard_online_cong[of "routeMessage now m b" b sid]
    by (simp add: routeMessage_def Let_def routeLoop_frame)
  ultimately show ?thesis by simp
qed

lemma recordMessage_subscribers:
  "topicSubscribers (recordMessage now m tm) = topicSubscribers tm"
  "hasTopic (recordMessage now m tm) n = hasTopic tm n"
  by (simp_all add: recordMessage_def hasTopic_def Let_def split: option.splits)

lemma publish_wildcard:
  assumes w: "wildcard_online sid b" and p: "publish now gid tpc pl pid opts b = Inr (m, b1)"
  shows "sink_calls sid b1 = sink_calls sid b @ [m] \<and> wildcard_online sid b1"
proof -
  obtain tm1 where tm1:
    "(if \<not> hasTopic (topicManager b) tpc
            then (case createTopic now tpc pid no_overrides (topicManager b) of
                    Inl e \<Rightarrow> Inl e
                  | Inr (tp, tm) \<Rightarrow> Inr tm)
            else Inr (topicManager b)) = Inr tm1"
    using p by (auto simp: publish_def split: sum.splits)
  have keep: "hasTopic tm1 ''#'' \<and> getSubscribers tm1 ''#'' = getSubscribers (topicManager b) ''#''"
  proof (cases "hasTopic (topicManager b) tpc")
    case True
    with tm1 w show ?thesis by (simp add: wildcard_online_def)
  next
    case False
    with w have ne: "tpc \<noteq> ''#''" by (auto simp: wildcard_online_def)
    from False tm1 obtain tp where "createTopic now tpc pid no_overrides (topicManager b) = Inr (tp, tm1)"
      by (auto split: sum.splits)
    with ne w show ?thesis
      by (auto simp: createTopic_def hasTopic_def getSubscribers_def wildcard_online_def Let_def
            split: if_splits)
  qed
  let ?m = "\<lparr>msg_id = gid, topic = tpc, payload = pl, timestamp = now,
                          publisherId = pid, headers = o_headers opts, replyTo = o_replyTo opts,
                          correlationId = o_correlationId opts, ttl = o_ttl opts,
                          retryCount = None\<rparr>"
  let ?b2 = "trackPublisher now pid tpc (b\<lparr>topicManager := recordMessage now ?m tm1\<rparr>)"
  have w2: "wildcard_online sid ?b2"
    using w keep
    by (simp add: wildcard_online_def trackPublisher_def Let_def getSubscribers_def
          recordMessage_subscribers)
  have s2: "sink_calls sid ?b2 = sink_calls sid b"
    by (simp add: sink_calls_def trackPublisher_def Let_def)
  from p tm1 have m: "m = ?m"
    and b1: "b1 = (routeMessage now ?m ?b2)\<lparr>totalMessages := totalMessages (routeMessage now ?m ?b2) + 1,
                     messagesLastMinute := messagesLastMinute (routeMessage now ?m ?b2) @ [now]\<rparr>"
    by (auto simp: publish_def Let_def)
  from routeMessage_wildcard[OF w2, of now ?m] s2
  show ?thesis unfolding b1 m by (simp add: sink_calls_def wildcard_online_def)
qed

lemma publish_all_wildcard:
  assumes "wildcard_online sid b"
  shows "sink_calls sid (snd (publish_all reqs b)) = sink_calls sid b @ fst (publish_all reqs b)
       \<and> wildcard_online sid (snd (publish_all reqs b))"
  using assms
proof (induction reqs arbitrary: b)
  case Nil
  then show ?case by simp
next
  case (Cons r rs)
  show ?case
  proof (cases "publish (r_now r) (r_gid r) (r_topic r) (r_payload r) (r_publisherId r) (r_options r) b")
    case (Inl e)
    with Cons show ?thesis by simp
  next
    case (Inr res)
    obtain m b1 where res: "res = (m, b1)" by (cases res)
    from publish_wildcard[OF Cons.prems Inr[unfolded res]]
    have 1: "sink_calls sid b1 = sink_calls sid b @ [m]" and 2: "wildcard_online sid b1" by simp_all
    from Cons.IH[OF 2] 1 Inr res show ?thesis by (simp add: case_prod_beta)
  qed
qed

lemma publish_succeeds:
  assumes "hasTopic (topicManager b) tpc \<or> valid_topic_name tpc"
  shows "\<exists>m b1. publish now gid tpc pl pid opts b = Inr (m, b1) \<and> msg_id m = gid \<and> topic m = tpc
           \<and> payload m = pl \<and> publisherId m = pid"
  using assms by (auto simp: publish_def createTopic_def hasTopic_def Let_def)

lemma valid_hash: "valid_topic_name ''#''"
  by (simp add: valid_topic_name_def valid_topic_char_def)

lemma drainQueue_absent:
  assumes "queues (messageQueue b) sid = None"
  shows "\<exists>b1. drainQueue now sid b = Some b1 \<and> topicManager b1 = topicManager b
           \<and> messageCallbacks b1 = messageCallbacks b \<and> sink_log b1 = sink_log b
           \<and> map_option isOnline (subscribers b1 sid) = map_option isOnline (subscribers b sid)
           \<and> map_option sub_filter (subscribers b1 sid) = map_option sub_filter (subscribers b sid)
           \<and> map_option sub_id (subscribers b1 sid) = map_option sub_id (subscribers b sid)"
proof -
  have "drainLoop now sid b = Some b"
    using assms by (intro drainLoop_nothing_ready) (simp add: dequeue_absent)
  then show ?thesis by (simp add: drainQueue_def split: option.splits)
qed

lemma subscribeTopics_Cons:
  assumes "hasTopic tm t \<or> valid_topic_name t"
  shows "subscribeTopics now cid sid (t # ts) tm
           = subscribeTopics now cid sid ts (subscribe_step now cid sid t tm)"
  using assms by (auto simp: subscribe_step_def createTopic_def hasTopic_def Let_def)

lemma subscribe_step_props:
  assumes ok: "hasTopic tm t \<or> valid_topic_name t"
      and cons: "hasTopic tm ''#'' \<longrightarrow> topicSubscribers tm ''#'' \<noteq> None"
  shows "hasTopic (subscribe_step now cid sid t tm) ''#''
           \<longrightarrow> topicSubscribers (subscribe_step now cid sid t tm) ''#'' \<noteq> None"
    and "hasTopic tm x \<longrightarrow> hasTopic (subscribe_step now cid sid t tm) x"
    and "t = ''#'' \<longrightarrow> hasTopic (subscribe_step now cid sid t tm) ''#''
           \<and> sid \<in> set (getSubscribers (subscribe_step now cid sid t tm) ''#'')"
    and "hasTopic tm ''#'' \<and> sid \<in> set (getSubscribers tm ''#'')
           \<longrightarrow> hasTopic (subscribe_step now cid sid t tm) ''#''
             \<and> sid \<in> set (getSubscribers (subscribe_step now cid sid t tm) ''#'')"
  using assms
  by (auto simp: subscribe_step_def createTopic_def addSubscriber_def hasTopic_def
        getSubscribers_def Let_def split: option.splits if_splits)

lemma subscribeTopics_wildcard:
  assumes "hasTopic tm ''#'' \<longrightarrow> topicSubscribers tm ''#'' \<noteq> None"
      and "list_all (\<lambda>t. hasTopic tm t \<or> valid_topic_name t) tps"
  shows "\<exists>tm1. subscribeTopics now cid sid tps tm = (None, tm1)
          \<and> (hasTopic tm ''#'' \<and> sid \<in> set (getSubscribers tm ''#'')
               \<longrightarrow> hasTopic tm1 ''#'' \<and> sid \<in> set (getSubscribers tm1 ''#''))
          \<and> (''#'' \<in> set tps \<longrightarrow> hasTopic tm1 ''#'' \<and> sid \<in> set (getSubscribers tm1 ''#''))"
  using assms
proof (induction tps arbitrary: tm)
  case Nil
  then show ?case by simp
next
  case (Cons t ts)
  let ?tm = "subscribe_step now cid sid t tm"
  from Cons.prems(2) have ok: "hasTopic tm t \<or> valid_topic_name t"
    and rest: "list_all (\<lambda>t. hasTopic tm t \<or> valid_topic_name t) ts" by simp_all
  note p = subscribe_step_props[OF ok Cons.prems(1), where now = now and cid = cid and sid = sid]
  have rest': "list_all (\<lambda>t. hasTopic ?tm t \<or> valid_topic_name t) ts"
    using rest p(2) by (auto simp: list_all_iff)
  from Cons.IH[OF p(1) rest'] obtain tm1 where
    tm1: "subscribeTopics now cid sid ts ?tm = (None, tm1)"
      "hasTopic ?tm ''#'' \<and> sid \<in> set (getSubscribers ?tm ''#'')
               \<longrightarrow> hasTopic tm1 ''#'' \<and> sid \<in> set (getSubscribers tm1 ''#'')"
      "''#'' \<in> set ts \<longrightarrow> hasTopic tm1 ''#'' \<and> sid \<in> set (getSubscribers tm1 ''#'')"
    by blast
  have "subscribeTopics now cid sid (t # ts) tm = (None, tm1)"
    using subscribeTopics_Cons[OF ok] tm1(1) by simp
  moreover have "hasTopic tm ''#'' \<and> sid \<in> set (getSubscribers tm ''#'')
               \<longrightarrow> hasTopic tm1 ''#'' \<and> sid \<in> set (getSubscribers tm1 ''#'')"
    using p(4) tm1(2) by blast
  moreover have "''#'' \<in> set (t # ts) \<longrightarrow> hasTopic tm1 ''#'' \<and> sid \<in> set (getSubscribers tm1 ''#'')"
    using p(3) tm1(2,3) by auto
  ultimately show ?case by blast
qed

lemma subscribe_wildcard_among:
  assumes fresh: "queues (messageQueue b) (''sub_'' @ cid @ ''_'' @ gid) = None"
      and cons: "hasTopic (topicManager b) ''#'' \<longrightarrow> topicSubscribers (topicManager b) ''#'' \<noteq> None"
      and ok: "list_all (\<lambda>t. hasTopic (topicManager b) t \<or> valid_topic_name t) tps"
      and mem: "''#'' \<in> set tps"
  shows "\<exists>sub b1. subscribe now gid cid tps cb None b = Some (Inr sub, b1)
           \<and> sub_id sub = ''sub_'' @ cid @ ''_'' @ gid
           \<and> wildcard_online (sub_id sub) b1
           \<and> sink_log b1 = sink_log b"
proof -
  let ?sid = "''sub_'' @ cid @ ''_'' @ gid"
  let ?subscriber = "\<lparr>sub_id = ?sid, clientId = cid, sub_topics = new_Set tps,
                        sub_createdAt = now, lastActivity = now, isOnline = True,
                        pendingMessages = 0, deliveredMessages = 0, sub_filter = None\<rparr>"
  let ?b1 = "b\<lparr>subscribers := (subscribers b)(?sid \<mapsto> ?subscriber),
                 messageCallbacks := (messageCallbacks b)(?sid \<mapsto> cb)\<rparr>"
  from subscribeTopics_wildcard[of "topicManager ?b1" tps now cid ?sid] cons ok mem
  obtain tm1 where tm1: "subscribeTopics now cid ?sid tps (topicManager ?b1) = (None, tm1)"
      "hasTopic tm1 ''#''" "?sid \<in> set (getSubscribers tm1 ''#'')"
    by auto
  let ?b2 = "?b1\<lparr>topicManager := tm1\<rparr>"
  from drainQueue_absent[of ?b2 ?sid now] fresh
  obtain b3 where b3: "drainQueue now ?sid ?b2 = Some b3" "topicManager b3 = topicManager ?b2"
           "messageCallbacks b3 = messageCallbacks ?b2" "sink_log b3 = sink_log ?b2"
           "map_option isOnline (subscribers b3 ?sid) = map_option isOnline (subscribers ?b2 ?sid)"
           "map_option sub_filter (subscribers b3 ?sid) = map_option sub_filter (subscribers ?b2 ?sid)"
           "map_option sub_id (subscribers b3 ?sid) = map_option sub_id (subscribers ?b2 ?sid)"
    by auto
  from b3(5,6,7) obtain s where s: "subscribers b3 ?sid = Some s" "isOnline s" "sub_filter s = None"
      "sub_id s = ?sid"
    by (cases "subscribers b3 ?sid") auto
  have r: "subscribe now gid cid tps cb None b = Some (Inr s, b3)"
    using tm1(1) b3(1) s(1) by (simp add: subscribe_def Let_def del: subscribeTopics.simps)
  have w: "wildcard_online ?sid b3"
    using s tm1 b3(2,3) by (simp add: wildcard_online_def)
  from r w s(4) b3(4) show ?thesis by simp
qed

text \<open>
  C8. A subscriber that is registered with its callback, online, without a filter and
  in the subscriber set of the topic \<open>#\<close> has its sink invoked exactly once for every
  message published afterwards, to whatever topic, in publication order, and stays such
  a subscriber: over any sequence of publish calls the calls of its sink grow by exactly
  the messages published. \<open>subscribe\<close> without a filter, to topics among which \<open>#\<close>
  is and which all exist or have valid names, returns such a subscriber (for a
  subscriber id that has no queue yet), and \<open>publish\<close> succeeds for every existing
  topic and every valid topic name. In particular, after
  \<open>subscribe("mon", ["#"], sink)\<close> on a new broker, publishing to \<open>a.b\<close> and to \<open>c\<close>
  invokes the sink exactly twice.
\<close>

theorem wildcard_subscriber_receives_every_publish:
  "(wildcard_online sid b
      \<longrightarrow> sink_calls sid (snd (publish_all reqs b)) = sink_calls sid b @ fst (publish_all reqs b)
        \<and> wildcard_online sid (snd (publish_all reqs b)))
   \<and> (queues (messageQueue b) (''sub_'' @ cid @ ''_'' @ gid) = None
        \<and> (hasTopic (topicManager b) ''#'' \<longrightarrow> topicSubscribers (topicManager b) ''#'' \<noteq> None)
        \<and> list_all (\<lambda>t. hasTopic (topicManager b) t \<or> valid_topic_name t) tps
        \<and> ''#'' \<in> set tps
      \<longrightarrow> (\<exists>sub b1. subscribe now gid cid tps cb None b = Some (Inr sub, b1)
             \<and> sub_id sub = ''sub_'' @ cid @ ''_'' @ gid
             \<and> wildcard_online (sub_id sub) b1
             \<and> sink_calls (sub_id sub) b1 = sink_calls (sub_id sub) b))
   \<and> (hasTopic (topicManager b) tpc \<or> valid_topic_name tpc
      \<longrightarrow> (\<exists>m b1. publish now gid tpc pl pid opts b = Inr (m, b1) \<and> msg_id m = gid
             \<and> topic m = tpc \<and> payload m = pl \<and> publisherId m = pid))"
proof (intro conjI impI)
  assume "wildcard_online sid b"
  from publish_all_wildcard[OF this, of reqs]
  show "sink_calls sid (snd (publish_all reqs b)) = sink_calls sid b @ fst (publish_all reqs b)"
    and "wildcard_online sid (snd (publish_all reqs b))"
    by simp_all
next
  assume h: "queues (messageQueue b) (''sub_'' @ cid @ ''_'' @ gid) = None
        \<and> (hasTopic (topicManager b) ''#'' \<longrightarrow> topicSubscribers (topicManager b) ''#'' \<noteq> None)
        \<and> list_all (\<lambda>t. hasTopic (topicManager b) t \<or> valid_topic_name t) tps
        \<and> ''#'' \<in> set tps"
  then have f: "queues (messageQueue b) (''sub_'' @ cid @ ''_'' @ gid) = None"
    and c: "hasTopic (topicManager b) ''#'' \<longrightarrow> topicSubscribers (topicManager b) ''#'' \<noteq> None"
    and k: "list_all (\<lambda>t. hasTopic (topicManager b) t \<or> valid_topic_name t) tps"
    and w: "''#'' \<in> set tps"
    by simp_all
  from subscribe_wildcard_among[OF f c k w, of now cb]
  show "\<exists>sub b1. subscribe now gid cid tps cb None b = Some (Inr sub, b1)
             \<and> sub_id sub = ''sub_'' @ cid @ ''_'' @ gid
             \<and> wildcard_online (sub_id sub) b1
             \<and> sink_calls (sub_id sub) b1 = sink_calls (sub_id sub) b"
    by (auto simp: sink_calls_def)
next
  assume "hasTopic (topicManager b) tpc \<or> valid_topic_name tpc"
  from publish_succeeds[OF this]
  show "\<exists>m b1. publish now gid tpc pl pid opts b = Inr (m, b1) \<and> msg_id m = gid
             \<and> topic m = tpc \<and> payload m = pl \<and> publisherId m = pid"
    by blast
qed

theorem wildcard_subscriber_receives_every_publish_witness:
  "\<exists>sub b1. subscribe 1 ''g0'' ''mon'' [''#''] (\<lambda>m. True) None new_MessageBroker = Some (Inr sub, b1)
      \<and> sub_id sub = ''sub_mon_g0''
      \<and> map msg_id (sink_calls (sub_id sub)
            (snd (publish_all [ex_request 2 ''m1'' ''a.b'', ex_request 3 ''m2'' ''c''] b1)))
          = [''m1'', ''m2'']"
proof -
  let ?reqs = "[ex_request 2 ''m1'' ''a.b'', ex_request 3 ''m2'' ''c'']"
  have h: "queues (messageQueue new_MessageBroker) (''sub_'' @ ''mon'' @ ''_'' @ ''g0'') = None
        \<and> (hasTopic (topicManager new_MessageBroker) ''#''
             \<longrightarrow> topicSubscribers (topicManager new_MessageBroker) ''#'' \<noteq> None)
        \<and> list_all (\<lambda>t. hasTopic (topicManager new_MessageBroker) t \<or> valid_topic_name t) [''#'']
        \<and> ''#'' \<in> set [''#'']"
    by (simp add: new_MessageBroker_def new_MessageQueue_def new_TopicManager_def hasTopic_def
          valid_hash)
  from wildcard_subscriber_receives_every_publish[where b = new_MessageBroker and cid = "''mon''"
           and gid = "''g0''" and now = 1 and cb = "\<lambda>m. True" and tps = "[''#'']",
         THEN conjunct2, THEN conjunct1, rule_format, OF h]
  obtain sub b1 where s: "subscribe 1 ''g0'' ''mon'' [''#''] (\<lambda>m. True) None new_MessageBroker = Some (Inr sub, b1)"
      "sub_id sub = ''sub_'' @ ''mon'' @ ''_'' @ ''g0''" "wildcard_online (sub_id sub) b1"
      "sink_calls (sub_id sub) b1 = sink_calls (sub_id sub) new_MessageBroker"
    by (elim exE conjE)
  have e: "sink_calls (sub_id sub) new_MessageBroker = []"
    by (simp add: sink_calls_def new_MessageBroker_def)
  from wildcard_subscriber_receives_every_publish[where sid = "sub_id sub" and b = b1 and reqs = ?reqs,
         THEN conjunct1, rule_format, OF s(3)]
  have calls: "sink_calls (sub_id sub) (snd (publish_all ?reqs b1)) = fst (publish_all ?reqs b1)"
    using s(4) e by simp
  have v1: "hasTopic (topicManager b1) ''a.b'' \<or> valid_topic_name ''a.b''"
    by (simp add: valid_topic_name_def valid_topic_char_def)
  from wildcard_subscriber_receives_every_publish[where b = b1 and gid = "''m1''" and tpc = "''a.b''"
           and now = 2 and pl = "PValue JNull" and pid = "''pub''" and opts = no_options,
         THEN conjunct2, THEN conjunct2, rule_format, OF v1]
  obtain m1 b2 where p1: "publish 2 ''m1'' ''a.b'' (PValue JNull) ''pub'' no_options b1 = Inr (m1, b2)"
      "msg_id m1 = ''m1''"
    by (elim exE conjE)
  have v2: "hasTopic (topicManager b2) ''c'' \<or> valid_topic_name ''c''"
    by (simp add: valid_topic_name_def valid_topic_char_def)
  from wildcard_subscriber_receives_every_publish[where b = b2 and gid = "''m2''" and tpc = "''c''"
           and now = 3 and pl = "PValue JNull" and pid = "''pub''" and opts = no_options,
         THEN conjunct2, THEN conjunct2, rule_format, OF v2]
  obtain m2 b3 where p2: "publish 3 ''m2'' ''c'' (PValue JNull) ''pub'' no_options b2 = Inr (m2, b3)"
      "msg_id m2 = ''m2''"
    by (elim exE conjE)
  have "fst (publish_all ?reqs b1) = [m1, m2]"
    using p1(1) p2(1) by (simp add: ex_request_def)
  with calls p1(2) p2(2)
  have res: "map msg_id (sink_calls (sub_id sub) (snd (publish_all ?reqs b1))) = [''m1'', ''m2'']"
    by simp
  show ?thesis
  proof (intro exI conjI)
    show "subscribe 1 ''g0'' ''mon'' [''#''] (\<lambda>m. True) None new_MessageBroker = Some (Inr sub, b1)"
      by (rule s(1))
    show "sub_id sub = ''sub_mon_g0''" using s(2) by simp
    show "map msg_id (sink_calls (sub_id sub) (snd (publish_all ?reqs b1))) = [''m1'', ''m2'']"
      by (rule res)
  qed
qed

section \<open>Where the broker departs from its documentation\<close>

lemma enqueue_within_capacity:
  assumes "1 \<le> maxQueueSize q" "int (getQueueDepth sid q) \<le> maxQueueSize q"
  shows "int (getQueueDepth sid (snd (enqueue now sid m q))) \<le> maxQueueSize q
       \<and> maxQueueSize (snd (enqueue now sid m q)) = maxQueueSize q"
  using assms
  by (auto simp: enqueue_def getQueueDepth_def moveToDeadLetter_def Let_def
        split: option.splits list.splits)

lemma enqueue_overflow_evicts_oldest:
  assumes "queues q sid = Some (oldest # rest)" "maxQueueSize q \<le> int (length (oldest # rest))"
      "1 \<le> maxDeadLetterSize q"
  shows "queues (snd (enqueue now sid m q)) sid = Some (rest @ [m])
       \<and> last (deadLetterQueue (snd (enqueue now sid m q)))
           = QueuedMessage.extend oldest
               (DeadLetterMessage.fields ''Queue overflow - message evicted'' now (topic oldest))"
proof -
  have e: "snd (enqueue now sid m q)
             = (moveToDeadLetter now oldest ''Queue overflow - message evicted'' q)
                 \<lparr>queues := (queues q)(sid \<mapsto> rest @ [m])\<rparr>"
    using assms(1,2) by (simp add: enqueue_def Let_def moveToDeadLetter_queues)
  show ?thesis
    unfolding e using moveToDeadLetter_last[OF assms(3), of now oldest "''Queue overflow - message evicted''"]
    by simp
qed

lemma queueMessage_ignores_topic_capacity:
  assumes "topics (topicManager b) (topic m) = Some tp"
  shows "messageQueue
           (queueMessage now sid m c
              (b\<lparr>topicManager := (topicManager b)\<lparr>topics := (topics (topicManager b))(topic m \<mapsto>
                   tp\<lparr>config := (config tp)\<lparr>cfg_maxQueueSize := k\<rparr>\<rparr>)\<rparr>\<rparr>))
         = messageQueue (queueMessage now sid m c b)"
  using assms by (simp add: queueMessage_def getTopic_def Let_def split: option.splits)

text \<open>
  C2. The claim bounds a subscriber's queue by the topic's configured \<open>maxQueueSize\<close>
  and has the overflow evict the oldest message into the dead-letter queue.
  \<open>queueMessage\<close> reads only \<open>maxRetries\<close> from the topic's configuration, and \<open>enqueue\<close>
  compares the queue length with the capacity of the queue store alone, which the
  broker's constructor leaves at the default 10000
  (\<open>queueMessage_ignores_topic_capacity\<close>, \<open>enqueue_within_capacity\<close>). With a topic
  configured with \<open>maxQueueSize = 2\<close> and an offline subscriber, publishing three
  messages leaves queue depth 3 and an empty dead-letter queue, where the claim has
  depth 2 and one dead-letter entry for the first message.
\<close>

theorem overflow_scenario_keeps_three: "scenario_overflow = Some (3, 0)"
  unfolding scenario_overflow_def
  by (simp add: broker_defs drainLoop_nothing_ready dequeue_absent Let_def)

lemma ex_round_robin_selection:
  "getAllSubscribers ''g'' ex_round_robin_group = [''sub_c1_g1'', ''sub_c2_g2'', ''sub_c3_g3'']
   \<and> select_times 6 ''g'' (ex_message ''m'' ''t'' 0) ex_round_robin_group
     = [Some ''sub_c1_g1'', Some ''sub_c2_g2'', Some ''sub_c3_g3'',
        Some ''sub_c1_g1'', Some ''sub_c2_g2'', Some ''sub_c3_g3'']"
  by code_simp

text \<open>
  C3. The claim has a message for a topic with a consumer group delivered to the one
  member the group's strategy selects. \<open>routeMessage\<close> never consults the consumer group
  manager: with three online subscribers of the topic in a round-robin group, each of
  six published messages reaches all three sinks, so every member receives all six
  instead of two. (The selection alone does cycle through the members in join order:
  \<open>ex_round_robin_selection\<close>.)
\<close>

theorem group_members_each_receive_all:
  "scenario_group_delivery
     = Some [[''m1'', ''m2'', ''m3'', ''m4'', ''m5'', ''m6''],
             [''m1'', ''m2'', ''m3'', ''m4'', ''m5'', ''m6''],
             [''m1'', ''m2'', ''m3'', ''m4'', ''m5'', ''m6'']]"
  unfolding scenario_group_delivery_def ex_three_subscribers_def ex_six_requests_def
  by (simp add: broker_defs drainLoop_nothing_ready dequeue_absent Let_def sink_calls_def)

lemma retryDeadLetter_always_false: "retryDeadLetter now messageId b = (False, b)"
  by (simp add: retryDeadLetter_def dlq_item_message_def split: option.splits)

text \<open>
  C1. The claim has \<open>retryDeadLetter(id)\<close> re-route the dead-lettered message, remove the
  entry and return true whenever an entry has the id. The method tests
  \<open>item.message\<close>, a property no dead-letter entry has, so it returns false and
  changes nothing for every id, also for the id of an entry that is in the queue. (The
  queue's own \<open>retryFromDeadLetter\<close>, which does reset \<open>attempts\<close> to 0, is never
  called by the broker.)
\<close>

theorem retryDeadLetter_ignores_entry:
  "map msg_id (getDeadLetterQueue (messageQueue ex_dead_broker)) = [''m1'']
   \<and> retryDeadLetter 50 ''m1'' ex_dead_broker = (False, ex_dead_broker)
   \<and> map_option attempts (fst (retryFromDeadLetter ''m1'' (messageQueue ex_dead_broker))) = Some 0"
proof -
  have "map msg_id (getDeadLetterQueue (messageQueue ex_dead_broker)) = [''m1'']"
    by code_simp
  moreover have "map_option attempts (fst (retryFromDeadLetter ''m1'' (messageQueue ex_dead_broker))) = Some 0"
    by code_simp
  ultimately show ?thesis by (simp add: retryDeadLetter_always_false)
qed

end
